theory Spec2Isabelle
  imports Main
begin

section \<open>Data model of the ongoing-game shard\<close>

text \<open>
  The shard \<^verbatim>\<open>OngoingGameMain\<close> (src/main/shards/ongoing-game/index.ts) loads, for every
  player of the current session, match history, summoner, ranked stats, champion mastery
  and saved info, from the local client (LCU) or the remote aggregation API (SGP).
  Player identifiers are strings, game identifiers are numbers.
\<close>

datatype source = Lcu | Sgp

datatype game = Game (gameId: nat) (detail: string)

datatype game_timeline = GameTimeline string

type_synonym json = string

record 'a sourced =
  source :: source
  data :: 'a

record mh_record = "game list sourced" +
  targetCount :: int
  tag :: "string option"

record saved_info =
  encounteredGames :: "nat list"
  tags :: "string list"
  saved_tag :: "string option"

datatype loading_state = Idle | Loading | Loaded | Aborted | Error

datatype phase = Unavailable | ChampSelect | InGame

datatype tag_preference = Current | All

record settings =
  concurrency :: int
  enabled :: bool
  matchHistoryLoadCount :: int
  premadeTeamThreshold :: int
  matchHistoryUseSgpApi :: bool
  matchHistoryTagPreference :: tag_preference
  gameTimelineLoadCount :: int

record ongoing_game_state =
  matchHistory :: "string \<rightharpoonup> mh_record"
  summoner :: "string \<rightharpoonup> json sourced"
  rankedStats :: "string \<rightharpoonup> json sourced"
  savedInfo :: "string \<rightharpoonup> saved_info"
  championMastery :: "string \<rightharpoonup> (nat \<rightharpoonup> json) sourced"
  gameTimeline :: "nat \<rightharpoonup> game_timeline sourced"
  additionalGame :: "nat \<rightharpoonup> game sourced"
  matchHistoryLoadingState :: "string \<rightharpoonup> loading_state"
  matchHistoryTag :: string

text \<open>What the code reads from its collaborators (league client, SGP, query stage).\<close>

record env =
  queryStage_phase :: phase
  queryStage_queueId :: "nat option"
  champSelect_session :: "(string list \<times> string list) option"
  gameflow_session :: "(string list \<times> string list) option"
  sgp_isTokenReady :: bool
  sgp_matchHistorySupported :: bool
  lc_authAndMe :: bool
  EMPTY_PUUID :: string

subsection \<open>Thrown values, log, IPC events\<close>

text \<open>
  A thrown value, as far as the two error handlers look at it:
  \<^verbatim>\<open>e instanceof Error\<close>, \<^verbatim>\<open>e.name\<close>, \<^verbatim>\<open>isAxiosError(e)\<close>, \<^verbatim>\<open>e.response?.status\<close>.
\<close>

record thrown =
  instanceofError :: bool
  e_name :: string
  isAxiosError :: bool
  response_status :: "nat option"

datatype level = Debug | Info | Warn

datatype ipc_event =
    EvClear
  | EvMatchHistoryLoaded string mh_record
  | EvSummonerLoaded string "json sourced"
  | EvRankedStatsLoaded string "json sourced"
  | EvSavedInfoLoaded string saved_info
  | EvChampionMasteryLoaded string
  | EvGameTimelineLoaded nat "game_timeline sourced"
  | EvAdditionalGameLoaded nat "game sourced"

subsection \<open>Queues, priorities, cancellation tokens\<close>

datatype queue_id = MhQueue | Queue

datatype priority = Priority int | Infinity

datatype request =
    SgpGetMatchHistoryLcuFormat string int int "string option"
  | LcGetMatchHistory string int int
  | LcGetGame nat
  | SgpGetGameSummaryLcuFormat nat
  | LcGetTimeline nat
  | SgpGetTimelineLcuFormat nat
  | LcGetSummonerByPuuid string
  | LcGetRankedStats string
  | LcGetPlayerChampionMastery string
  | QuerySavedPlayerWithGames string

datatype response =
    RGames "game list"
  | RGame game
  | RTimeline game_timeline
  | RJson json
  | RMastery "(nat \<times> json) list"
  | RSaved saved_info

text \<open>One call of \<^verbatim>\<open>queue.add(fn, { signal, priority })\<close>.\<close>

record queue_add =
  q_queue :: queue_id
  q_signal :: "nat option"
  q_priority :: priority
  q_request :: request

text \<open>The options object of the loaders (absent \<^verbatim>\<open>force\<close> and \<^verbatim>\<open>useSgpApi\<close> are falsy).\<close>

record options =
  o_signal :: "nat option"
  o_mhSignal :: "nat option"
  o_tag :: "string option"
  o_count :: "int option"
  o_force :: bool
  o_useSgpApi :: bool
  o_priority :: "priority option"

text \<open>
  What a suspended loader does when its awaited promise settles: the code after each
  \<^verbatim>\<open>await\<close>. \<open>MhLcuDetails\<close> is the point after
  \<^verbatim>\<open>await Promise.allSettled(res.data.games.games.map((g) => loadGame(g.gameId)))\<close>, holding the
  lightweight games, the \<^verbatim>\<open>detailedGameMap\<close> filled so far and the game ids still awaited.
\<close>

datatype continuation =
    MhSgp string options
  | MhLcuList string options
  | MhLcuDetails string options "game list" "(nat \<times> game) list" "nat list"
  | TimelineCont nat source
  | AdditionalGameCont nat source
  | SummonerCont string
  | SavedInfoCont string options
  | RankedStatsCont string
  | ChampionMasteryCont string

record task =
  adds :: "queue_add list"
  cont :: continuation

record main =
  settings :: settings
  state :: ongoing_game_state
  gameLruMap :: "(nat \<times> game sourced) list"
  gameTimelineLruMap :: "(nat \<times> game_timeline sourced) list"
  mhController :: "nat option"
  controller :: "nat option"
  abortedSignals :: "nat list"
  nextSignal :: nat
  mhQueue_concurrency :: int
  queue_concurrency :: int
  debouncedUpdateScheduled :: bool
  pending :: "task list"
  sent :: "ipc_event list"
  logs :: "(level \<times> string) list"

section \<open>Constants\<close>

definition LOADING_PRIORITY_ADDITIONAL_SUMMONER :: int where
  "LOADING_PRIORITY_ADDITIONAL_SUMMONER = - 1"

definition LOADING_PRIORITY_SUMMONER :: int where
  "LOADING_PRIORITY_SUMMONER = 6"

definition LOADING_PRIORITY_MATCH_HISTORY :: int where
  "LOADING_PRIORITY_MATCH_HISTORY = 5"

definition LOADING_PRIORITY_SAVED_INFO :: int where
  "LOADING_PRIORITY_SAVED_INFO = 4"

definition LOADING_PRIORITY_RANKED_STATS :: int where
  "LOADING_PRIORITY_RANKED_STATS = 3"

definition LOADING_PRIORITY_CHAMPION_MASTERY :: int where
  "LOADING_PRIORITY_CHAMPION_MASTERY = 2"

definition LOADING_PRIORITY_ADDITIONAL_GAME :: int where
  "LOADING_PRIORITY_ADDITIONAL_GAME = 2"

definition LOADING_PRIORITY_GAME_TIMELINE :: int where
  "LOADING_PRIORITY_GAME_TIMELINE = 1"

definition SAFE_TAGS :: "string list" where
  "SAFE_TAGS = [''q_420'', ''q_430'', ''q_440'', ''q_450'', ''q_480'', ''q_490'',
                ''q_900'', ''q_1400'', ''q_1700'', ''q_1900'', ''q_2300'']"

definition maxSize :: nat where
  "maxSize = 400"

section \<open>The two bounded result caches\<close>

text \<open>
  Modelled from the spec: the class \<^verbatim>\<open>LRUMap\<close> behind \<^verbatim>\<open>_gameLruMap\<close> and
  \<^verbatim>\<open>_gameTimelineLruMap\<close> is imported from a package and is not under src/; the source only
  constructs both with \<^verbatim>\<open>maxSize: 400\<close> and calls \<^verbatim>\<open>has\<close>, \<^verbatim>\<open>get\<close> and \<^verbatim>\<open>set\<close>. Following the
  spec (a bounded map keyed by game id with access-order tracking, eviction strictly on
  insert over capacity, least-recently-accessed entry first) a cache is the list of its
  entries, most recently accessed first. \<^verbatim>\<open>has\<close> does not count as an access.
\<close>

definition lru_remove :: "'k \<Rightarrow> ('k \<times> 'v) list \<Rightarrow> ('k \<times> 'v) list" where
  "lru_remove k c = filter (\<lambda>kv. fst kv \<noteq> k) c"

definition lru_has :: "'k \<Rightarrow> ('k \<times> 'v) list \<Rightarrow> bool" where
  "lru_has k c = (map_of c k \<noteq> None)"

definition lru_get :: "'k \<Rightarrow> ('k \<times> 'v) list \<Rightarrow> 'v option \<times> ('k \<times> 'v) list" where
  "lru_get k c =
     (case map_of c k of
        None \<Rightarrow> (None, c)
      | Some v \<Rightarrow> (Some v, (k, v) # lru_remove k c))"

definition lru_set :: "'k \<Rightarrow> 'v \<Rightarrow> ('k \<times> 'v) list \<Rightarrow> ('k \<times> 'v) list" where
  "lru_set k v c = take maxSize ((k, v) # lru_remove k c)"

definition lru_keys :: "('k \<times> 'v) list \<Rightarrow> 'k list" where
  "lru_keys c = map fst c"

text \<open>The entry an insertion over capacity has to give up: the last in access order.\<close>

definition lru_oldest :: "('k \<times> 'v) list \<Rightarrow> 'k option" where
  "lru_oldest c = (case rev c of [] \<Rightarrow> None | kv # _ \<Rightarrow> Some (fst kv))"

datatype ('k, 'v) lru_op = LruSet 'k 'v | LruGet 'k

fun lru_apply :: "('k, 'v) lru_op \<Rightarrow> ('k \<times> 'v) list \<Rightarrow> ('k \<times> 'v) list" where
  "lru_apply (LruSet k v) c = lru_set k v c"
| "lru_apply (LruGet k) c = snd (lru_get k c)"

text \<open>
  For the statement of the eviction order: the keys a sequence of operations accesses,
  oldest access first (a \<^verbatim>\<open>set\<close> always accesses its key, a \<^verbatim>\<open>get\<close> only when it finds it), and
  the order of last access of a sequence of keys, the key accessed last in front.
\<close>

fun accesses :: "('k, 'v) lru_op list \<Rightarrow> ('k \<times> 'v) list \<Rightarrow> 'k list" where
  "accesses [] c = []"
| "accesses (LruSet k v # ops) c = k # accesses ops (lru_set k v c)"
| "accesses (LruGet k # ops) c =
     (if lru_has k c then k # accesses ops (snd (lru_get k c))
      else accesses ops (snd (lru_get k c)))"

definition touch :: "'k \<Rightarrow> 'k list \<Rightarrow> 'k list" where
  "touch k u = k # filter (\<lambda>k'. k' \<noteq> k) u"

definition recency :: "'k list \<Rightarrow> 'k list" where
  "recency ks = fold touch ks []"

section \<open>State setters\<close>

text \<open>
  Modelled from the spec: the class \<^verbatim>\<open>OngoingGameState\<close> (./state) is not under src/. Its two
  setters store their argument; \<^verbatim>\<open>clear\<close> empties the per-generation maps (the spec: state
  maps are fully cleared when the stage becomes unavailable or the feature is disabled).
\<close>

definition setMatchHistoryTag :: "string \<Rightarrow> main \<Rightarrow> main" where
  "setMatchHistoryTag t m = m\<lparr>state := (state m)\<lparr>matchHistoryTag := t\<rparr>\<rparr>"

definition setMatchHistoryLoadingState :: "string \<Rightarrow> loading_state \<Rightarrow> main \<Rightarrow> main" where
  "setMatchHistoryLoadingState puuid l m =
     m\<lparr>state := (state m)\<lparr>matchHistoryLoadingState := (matchHistoryLoadingState (state m))(puuid \<mapsto> l)\<rparr>\<rparr>"

definition state_clear :: "main \<Rightarrow> main" where
  "state_clear m =
     m\<lparr>state := (state m)\<lparr>
          matchHistory := Map.empty, summoner := Map.empty, rankedStats := Map.empty,
          savedInfo := Map.empty, championMastery := Map.empty, gameTimeline := Map.empty,
          additionalGame := Map.empty, matchHistoryLoadingState := Map.empty\<rparr>\<rparr>"

definition sendEvent :: "ipc_event \<Rightarrow> main \<Rightarrow> main" where
  "sendEvent ev m = m\<lparr>sent := sent m @ [ev]\<rparr>"

definition log_at :: "level \<Rightarrow> string \<Rightarrow> main \<Rightarrow> main" where
  "log_at l msg m = m\<lparr>logs := logs m @ [(l, msg)]\<rparr>"

section \<open>Error handlers\<close>

definition isAbortError :: "thrown \<Rightarrow> bool" where
  "isAbortError e = (instanceofError e \<and> e_name e = ''AbortError'')"

definition isNotFound :: "thrown \<Rightarrow> bool" where
  "isNotFound e = (isAxiosError e \<and> response_status e = Some 404)"

text \<open>\<^verbatim>\<open>_handleError(e, type, info)\<close>: only logs; the caller's \<^verbatim>\<open>res\<close> is \<^verbatim>\<open>undefined\<close>.\<close>

definition handleError :: "thrown \<Rightarrow> main \<Rightarrow> main" where
  "handleError e m =
     (if isAbortError e then log_at Info ''Task aborted'' m
      else if isNotFound e then log_at Info ''Target not found'' m
      else log_at Warn ''Error loading'' m)"

text \<open>\<^verbatim>\<open>_handleMatchHistoryError(e, puuid)\<close>.\<close>

definition handleMatchHistoryError :: "thrown \<Rightarrow> string \<Rightarrow> main \<Rightarrow> main" where
  "handleMatchHistoryError e puuid m =
     (if isAbortError e then setMatchHistoryLoadingState puuid Aborted m
      else setMatchHistoryLoadingState puuid Error
             (log_at Warn ''Error loading match history'' m))"

text \<open>
  The taxonomy of the specification, for comparison: the class of a thrown value and
  the level a failure of that class is to be logged at.
\<close>

datatype failure_class = AbortedClass | NotFoundClass | OtherClass

definition classify :: "thrown \<Rightarrow> failure_class" where
  "classify e =
     (if isAbortError e then AbortedClass
      else if isNotFound e then NotFoundClass
      else OtherClass)"

definition spec_level :: "failure_class \<Rightarrow> level" where
  "spec_level c = (case c of AbortedClass \<Rightarrow> Info | NotFoundClass \<Rightarrow> Info | OtherClass \<Rightarrow> Warn)"

text \<open>The loading state the match-history handler leaves for the player.\<close>

definition matchHistoryLoadingState_after :: "thrown \<Rightarrow> loading_state" where
  "matchHistoryLoadingState_after e = (if classify e = AbortedClass then Aborted else Error)"

text \<open>The entries a handler call appends to the log.\<close>

definition logged_by :: "(main \<Rightarrow> main) \<Rightarrow> main \<Rightarrow> (level \<times> string) list" where
  "logged_by f m = drop (length (logs m)) (logs (f m))"

section \<open>Settings handlers\<close>

text \<open>
  The \<^verbatim>\<open>setter\<close> handed to an \<^verbatim>\<open>onChange\<close> callback stores the value in the settings object.
  \<^verbatim>\<open>_debouncedUpdateMatchHistoryFn()\<close> arms the 250 ms debounce timer.
\<close>

definition debouncedUpdateMatchHistoryFn :: "main \<Rightarrow> main" where
  "debouncedUpdateMatchHistoryFn m = m\<lparr>debouncedUpdateScheduled := True\<rparr>"

definition debouncedUpdateMatchHistoryFn_cancel :: "main \<Rightarrow> main" where
  "debouncedUpdateMatchHistoryFn_cancel m = m\<lparr>debouncedUpdateScheduled := False\<rparr>"

definition onChange_gameTimelineLoadCount :: "int \<Rightarrow> main \<Rightarrow> main" where
  "onChange_gameTimelineLoadCount v m =
     (if v \<ge> 0 \<and> v \<le> matchHistoryLoadCount (settings m)
      then m\<lparr>settings := (settings m)\<lparr>gameTimelineLoadCount := v\<rparr>\<rparr>
      else m\<lparr>settings := (settings m)\<lparr>gameTimelineLoadCount := matchHistoryLoadCount (settings m)\<rparr>\<rparr>)"

text \<open>
  Modelled from the spec: \<^verbatim>\<open>SetterSettingService.set\<close> is not under src/. A key with a
  registered \<^verbatim>\<open>onChange\<close> callback is changed through that callback (the settings store
  enforces the cross-field clamp on every change to either field).
\<close>

definition setting_set_gameTimelineLoadCount :: "int \<Rightarrow> main \<Rightarrow> main" where
  "setting_set_gameTimelineLoadCount v m = onChange_gameTimelineLoadCount v m"

definition onChange_matchHistoryLoadCount :: "int \<Rightarrow> main \<Rightarrow> main" where
  "onChange_matchHistoryLoadCount v m =
     (let m1 = (if v \<ge> 1 \<and> v \<le> 200
                then debouncedUpdateMatchHistoryFn (m\<lparr>settings := (settings m)\<lparr>matchHistoryLoadCount := v\<rparr>\<rparr>)
                else m)
      in setting_set_gameTimelineLoadCount (min v (gameTimelineLoadCount (settings m1))) m1)"

definition onChange_matchHistoryUseSgpApi :: "bool \<Rightarrow> main \<Rightarrow> main" where
  "onChange_matchHistoryUseSgpApi v m =
     debouncedUpdateMatchHistoryFn (m\<lparr>settings := (settings m)\<lparr>matchHistoryUseSgpApi := v\<rparr>\<rparr>)"

definition onChange_premadeTeamThreshold :: "int \<Rightarrow> main \<Rightarrow> main" where
  "onChange_premadeTeamThreshold v m =
     (if v \<ge> 2 then m\<lparr>settings := (settings m)\<lparr>premadeTeamThreshold := v\<rparr>\<rparr> else m)"

datatype setting_change = SetMatchHistoryLoadCount int | SetGameTimelineLoadCount int

fun apply_change :: "setting_change \<Rightarrow> main \<Rightarrow> main" where
  "apply_change (SetMatchHistoryLoadCount v) m = onChange_matchHistoryLoadCount v m"
| "apply_change (SetGameTimelineLoadCount v) m = onChange_gameTimelineLoadCount v m"

text \<open>\<^verbatim>\<open>_handlePQueue\<close>: the reaction on \<^verbatim>\<open>settings.concurrency\<close>.\<close>

definition handlePQueue :: "main \<Rightarrow> main" where
  "handlePQueue m =
     m\<lparr>mhQueue_concurrency := concurrency (settings m),
       queue_concurrency := concurrency (settings m)\<rparr>"

section \<open>IPC calls\<close>

text \<open>The object returned by the \<^verbatim>\<open>getAll\<close> call.\<close>

record snapshot =
  all_matchHistory :: "string \<rightharpoonup> mh_record"
  all_summoner :: "string \<rightharpoonup> json sourced"
  all_rankedStats :: "string \<rightharpoonup> json sourced"
  all_savedInfo :: "string \<rightharpoonup> saved_info"
  all_championMastery :: "string \<rightharpoonup> (nat \<rightharpoonup> json) sourced"
  all_gameTimeline :: "nat \<rightharpoonup> game sourced"
  all_additionalGames :: "nat \<rightharpoonup> game sourced"

definition getAll :: "main \<Rightarrow> snapshot" where
  "getAll m =
     (let matchHistory' = matchHistory (state m);
          summoner' = summoner (state m);
          rankedStats' = rankedStats (state m);
          savedInfo' = savedInfo (state m);
          championMastery' = championMastery (state m);
          gameTimeline' = additionalGame (state m);
          additionalGames' = additionalGame (state m)
      in \<lparr>all_matchHistory = matchHistory', all_summoner = summoner',
          all_rankedStats = rankedStats', all_savedInfo = savedInfo',
          all_championMastery = championMastery', all_gameTimeline = gameTimeline',
          all_additionalGames = additionalGames'\<rparr>)"

definition ipc_setMatchHistoryTag :: "string \<Rightarrow> main \<Rightarrow> main" where
  "ipc_setMatchHistoryTag t m =
     (if t \<in> set SAFE_TAGS \<or> t = ''all''
      then debouncedUpdateMatchHistoryFn (setMatchHistoryTag t m)
      else m)"

section \<open>Queue and cancellation\<close>

text \<open>
  Modelled from the spec: the queue class behind \<^verbatim>\<open>_mhQueue\<close> and \<^verbatim>\<open>_queue\<close> and the
  \<^verbatim>\<open>AbortController\<close> are not under src/. A controller is the number of its signal; aborting
  it records that number. An \<^verbatim>\<open>add\<close> bound to a cancelled signal never delivers a value:
  its promise is rejected with an \<^verbatim>\<open>AbortError\<close> (pending items bound to an invalidated token
  are dropped, running items have their result discarded). An \<^verbatim>\<open>add\<close> without a signal is
  never cancelled.
\<close>

definition abortError :: thrown where
  "abortError = \<lparr>instanceofError = True, e_name = ''AbortError'', isAxiosError = False,
                  response_status = None\<rparr>"

definition signal_aborted :: "main \<Rightarrow> nat option \<Rightarrow> bool" where
  "signal_aborted m sg = (case sg of None \<Rightarrow> False | Some n \<Rightarrow> n \<in> set (abortedSignals m))"

definition queue_result :: "main \<Rightarrow> queue_add \<Rightarrow> thrown + response \<Rightarrow> thrown + response" where
  "queue_result m a r = (if signal_aborted m (q_signal a) then Inl abortError else r)"

definition abort_controller :: "nat option \<Rightarrow> main \<Rightarrow> main" where
  "abort_controller c m =
     (case c of None \<Rightarrow> m | Some n \<Rightarrow> m\<lparr>abortedSignals := n # abortedSignals m\<rparr>)"

definition enqueue :: "queue_add \<Rightarrow> continuation \<Rightarrow> main \<Rightarrow> main" where
  "enqueue a c m = m\<lparr>pending := pending m @ [\<lparr>adds = [a], cont = c\<rparr>]\<rparr>"

definition or_default :: "priority option \<Rightarrow> int \<Rightarrow> priority" where
  "or_default p d = (case p of None \<Rightarrow> Priority d | Some q \<Rightarrow> q)"

section \<open>Loaders\<close>

definition isAbleToUseSgpApi :: "env \<Rightarrow> options \<Rightarrow> bool" where
  "isAbleToUseSgpApi e opts = (o_useSgpApi opts \<and> sgp_matchHistorySupported e)"

definition resolved :: "bool \<Rightarrow> source" where
  "resolved able = (if able then Sgp else Lcu)"

definition sub_options :: "nat option \<Rightarrow> bool \<Rightarrow> bool \<Rightarrow> priority option \<Rightarrow> options" where
  "sub_options sg force useSgp prio =
     \<lparr>o_signal = sg, o_mhSignal = None, o_tag = None, o_count = None, o_force = force,
      o_useSgpApi = useSgp, o_priority = prio\<rparr>"

text \<open>\<^verbatim>\<open>xs.slice(0, n)\<close>: a negative end counts from the end of the array.\<close>

definition slice0 :: "int \<Rightarrow> 'a list \<Rightarrow> 'a list" where
  "slice0 n xs = (if n \<ge> 0 then take (nat n) xs else take (length xs - nat (- n)) xs)"

subsection \<open>Game timeline and additional game\<close>

definition source_is :: "source \<Rightarrow> ('a, 'b) sourced_scheme option \<Rightarrow> bool" where
  "source_is src x = (case x of None \<Rightarrow> False | Some c \<Rightarrow> source c = src)"

definition commit_gameTimeline :: "nat \<Rightarrow> game_timeline sourced \<Rightarrow> main \<Rightarrow> main" where
  "commit_gameTimeline gid v m =
     sendEvent (EvGameTimelineLoaded gid v)
       (m\<lparr>state := (state m)\<lparr>gameTimeline := (gameTimeline (state m))(gid \<mapsto> v)\<rparr>\<rparr>)"

definition loadGameTimeline1 :: "env \<Rightarrow> options \<Rightarrow> nat \<Rightarrow> main \<Rightarrow> main" where
  "loadGameTimeline1 e opts gid m =
     (let able = isAbleToUseSgpApi e opts in
      if \<not> o_force opts \<and> source_is (resolved able) (gameTimeline (state m) gid)
      then log_at Debug ''Game timeline query condition not changed, skip'' m
      else
        (let cached = fst (lru_get gid (gameTimelineLruMap m));
             m1 = m\<lparr>gameTimelineLruMap := snd (lru_get gid (gameTimelineLruMap m))\<rparr>
         in if source_is (resolved able) cached
            then (case cached of
                    None \<Rightarrow> m1
                  | Some c \<Rightarrow> commit_gameTimeline gid c (log_at Info ''Game timeline hit cache'' m1))
            else if able
            then enqueue \<lparr>q_queue = Queue, q_signal = o_signal opts,
                          q_priority = Priority LOADING_PRIORITY_GAME_TIMELINE,
                          q_request = SgpGetTimelineLcuFormat gid\<rparr>
                   (TimelineCont gid Sgp) (log_at Debug ''Load game timeline: SGP API'' m1)
            else enqueue \<lparr>q_queue = Queue, q_signal = o_signal opts,
                          q_priority = Priority LOADING_PRIORITY_GAME_TIMELINE,
                          q_request = LcGetTimeline gid\<rparr>
                   (TimelineCont gid Lcu) (log_at Debug ''Load game timeline: LCU API'' m1)))"

definition loadGameTimeline :: "env \<Rightarrow> nat list \<Rightarrow> options \<Rightarrow> main \<Rightarrow> main" where
  "loadGameTimeline e gameIds opts m = fold (loadGameTimeline1 e opts) gameIds m"

definition resume_gameTimeline :: "nat \<Rightarrow> source \<Rightarrow> thrown + response \<Rightarrow> main \<Rightarrow> main" where
  "resume_gameTimeline gid src r m =
     (case r of
        Inl err \<Rightarrow> handleError err m
      | Inr (RTimeline t) \<Rightarrow>
          (let toBeLoaded = \<lparr>source = src, data = t\<rparr>
           in commit_gameTimeline gid toBeLoaded
                (log_at Debug (if src = Sgp then ''Game timeline loaded: SGP''
                               else ''Game timeline loaded: LCU'')
                   (m\<lparr>gameTimelineLruMap := lru_set gid toBeLoaded (gameTimelineLruMap m)\<rparr>)))
      | Inr _ \<Rightarrow> m)"

definition commit_additionalGame :: "nat \<Rightarrow> game sourced \<Rightarrow> main \<Rightarrow> main" where
  "commit_additionalGame gid v m =
     sendEvent (EvAdditionalGameLoaded gid v)
       (m\<lparr>state := (state m)\<lparr>additionalGame := (additionalGame (state m))(gid \<mapsto> v)\<rparr>\<rparr>)"

definition loadAdditionalGame1 :: "env \<Rightarrow> options \<Rightarrow> nat \<Rightarrow> main \<Rightarrow> main" where
  "loadAdditionalGame1 e opts gid m =
     (let able = isAbleToUseSgpApi e opts in
      if \<not> o_force opts \<and> source_is (resolved able) (additionalGame (state m) gid)
      then log_at Debug ''Game timeline query condition not changed, skip'' m
      else
        (let cached = fst (lru_get gid (gameLruMap m));
             m1 = m\<lparr>gameLruMap := snd (lru_get gid (gameLruMap m))\<rparr>
         in if source_is (resolved able) cached
            then (case cached of
                    None \<Rightarrow> m1
                  | Some c \<Rightarrow> commit_additionalGame gid c
                               (log_at Info ''Additional game info hit cache'' m1))
            else if able
            then enqueue \<lparr>q_queue = Queue, q_signal = o_signal opts,
                          q_priority = Priority LOADING_PRIORITY_ADDITIONAL_GAME,
                          q_request = SgpGetGameSummaryLcuFormat gid\<rparr>
                   (AdditionalGameCont gid Sgp)
                   (log_at Info ''Load additional game info: SGP API'' m1)
            else enqueue \<lparr>q_queue = Queue, q_signal = o_signal opts,
                          q_priority = Priority LOADING_PRIORITY_ADDITIONAL_GAME,
                          q_request = LcGetGame gid\<rparr>
                   (AdditionalGameCont gid Lcu)
                   (log_at Info ''Load additional game info: LCU API'' m1)))"

definition loadAdditionalGame :: "env \<Rightarrow> nat list \<Rightarrow> options \<Rightarrow> main \<Rightarrow> main" where
  "loadAdditionalGame e gameIds opts m = fold (loadAdditionalGame1 e opts) gameIds m"

definition resume_additionalGame :: "nat \<Rightarrow> source \<Rightarrow> thrown + response \<Rightarrow> main \<Rightarrow> main" where
  "resume_additionalGame gid src r m =
     (case r of
        Inl err \<Rightarrow> handleError err m
      | Inr (RGame g) \<Rightarrow>
          (let toBeLoaded = \<lparr>source = src, data = g\<rparr>
           in commit_additionalGame gid toBeLoaded
                (log_at Debug (if src = Sgp then ''Additional game info loaded: SGP''
                               else ''Additional game info loaded: LCU'')
                   (m\<lparr>gameLruMap := lru_set gid toBeLoaded (gameLruMap m)\<rparr>)))
      | Inr _ \<Rightarrow> m)"

subsection \<open>Match history\<close>

text \<open>A tag is truthy when it is present and not the empty string.\<close>

definition truthy :: "string option \<Rightarrow> bool" where
  "truthy t = (case t of None \<Rightarrow> False | Some s \<Rightarrow> s \<noteq> [])"

definition count_of :: "options \<Rightarrow> int" where
  "count_of opts = (case o_count opts of None \<Rightarrow> 20 | Some c \<Rightarrow> c)"

text \<open>The guard in front of the match-history query: true when the call returns at once.\<close>

definition mh_unchanged :: "env \<Rightarrow> string \<Rightarrow> options \<Rightarrow> main \<Rightarrow> bool" where
  "mh_unchanged e puuid opts m =
     (let able = isAbleToUseSgpApi e opts in
      \<not> o_force opts \<and>
      (case matchHistory (state m) puuid of
         None \<Rightarrow> False
       | Some current \<Rightarrow>
           targetCount current = count_of opts \<and>
           source current = resolved able \<and>
           (\<not> able \<or> (if o_tag opts = Some ''all'' then None else o_tag opts) = tag current)))"

text \<open>
  The tags a call site of the loader can pass: the orchestrator passes "all" or the tag of
  the current queue when it is known-safe, a reload passes the stored tag; a tag may also
  be absent or empty.
\<close>

definition receivable_tag :: "string option \<Rightarrow> bool" where
  "receivable_tag t =
     (case t of None \<Rightarrow> True | Some s \<Rightarrow> s = [] \<or> s = ''all'' \<or> s \<in> set SAFE_TAGS)"

text \<open>The tag after the normalisation at the head of the SGP branch.\<close>

definition sgp_tag :: "string option \<Rightarrow> string option" where
  "sgp_tag t =
     (if truthy t
      then (case t of
              None \<Rightarrow> None
            | Some s \<Rightarrow> if s = ''all'' \<or> s \<notin> set SAFE_TAGS then None else Some s)
      else t)"

definition sgp_set_tag :: "string option \<Rightarrow> main \<Rightarrow> main" where
  "sgp_set_tag t m =
     (if truthy t
      then (case t of
              None \<Rightarrow> m
            | Some s \<Rightarrow> if s = ''all'' \<or> s \<notin> set SAFE_TAGS
                       then setMatchHistoryTag ''all'' m
                       else setMatchHistoryTag s m)
      else m)"

definition loadPlayerMatchHistory :: "env \<Rightarrow> string \<Rightarrow> options \<Rightarrow> main \<Rightarrow> main" where
  "loadPlayerMatchHistory e puuid opts m =
     (let count = count_of opts; able = isAbleToUseSgpApi e opts in
      if mh_unchanged e puuid opts m
      then log_at Debug ''Player match history query condition not changed, skip'' m
      else if able
      then
        (let tag' = sgp_tag (o_tag opts);
             m1 = sgp_set_tag (o_tag opts) (log_at Info ''Load player match history: SGP API'' m);
             m2 = setMatchHistoryLoadingState puuid Loading m1
         in enqueue \<lparr>q_queue = MhQueue, q_signal = o_mhSignal opts,
                      q_priority = or_default (o_priority opts) LOADING_PRIORITY_MATCH_HISTORY,
                      q_request = SgpGetMatchHistoryLcuFormat puuid 0 count tag'\<rparr>
               (MhSgp puuid (opts\<lparr>o_tag := tag', o_count := Some count\<rparr>)) m2)
      else
        (let m1 = log_at Info ''Load player match history: LCU API'' m;
             m2 = setMatchHistoryLoadingState puuid Loading m1
         in enqueue \<lparr>q_queue = Queue, q_signal = o_mhSignal opts,
                      q_priority = or_default (o_priority opts) LOADING_PRIORITY_MATCH_HISTORY,
                      q_request = LcGetMatchHistory puuid 0 (count - 1)\<rparr>
               (MhLcuList puuid (opts\<lparr>o_count := Some count\<rparr>)) m2))"

definition commit_matchHistory :: "string \<Rightarrow> mh_record \<Rightarrow> main \<Rightarrow> main" where
  "commit_matchHistory puuid toBeLoaded m =
     setMatchHistoryLoadingState puuid Loaded
       (sendEvent (EvMatchHistoryLoaded puuid toBeLoaded)
          (m\<lparr>state := (state m)\<lparr>matchHistory := (matchHistory (state m))(puuid \<mapsto> toBeLoaded)\<rparr>\<rparr>))"

definition resume_mh_sgp :: "env \<Rightarrow> string \<Rightarrow> options \<Rightarrow> thrown + response \<Rightarrow> main \<Rightarrow> main" where
  "resume_mh_sgp e puuid opts r m =
     (case r of
        Inl err \<Rightarrow> handleMatchHistoryError err puuid m
      | Inr (RGames games) \<Rightarrow>
          (let m1 = log_at Debug ''Load player match history completed: SGP API'' m;
               m2 = loadGameTimeline e
                      (slice0 (gameTimelineLoadCount (settings m1)) (map gameId games))
                      (sub_options (o_signal opts) (o_force opts) (o_useSgpApi opts) None) m1;
               toBeLoaded = \<lparr>source = Sgp, data = games, targetCount = count_of opts,
                             tag = o_tag opts\<rparr>
           in commit_matchHistory puuid toBeLoaded m2)
      | Inr _ \<Rightarrow> m)"

text \<open>
  The synchronous head of the inner \<^verbatim>\<open>loadGame(gameId)\<close>: a cached game is read (a \<^verbatim>\<open>get\<close>, so
  an access); any other game id is fetched through the general queue and awaited.
\<close>

fun loadGame_heads :: "nat list \<Rightarrow> main \<Rightarrow> (nat \<times> game) list \<Rightarrow> nat list
                        \<Rightarrow> main \<times> (nat \<times> game) list \<times> nat list" where
  "loadGame_heads [] m dm aw = (m, dm, aw)"
| "loadGame_heads (gid # gids) m dm aw =
     (if lru_has gid (gameLruMap m)
      then (case fst (lru_get gid (gameLruMap m)) of
              None \<Rightarrow> loadGame_heads gids m dm aw
            | Some c \<Rightarrow>
                loadGame_heads gids (m\<lparr>gameLruMap := snd (lru_get gid (gameLruMap m))\<rparr>)
                  ((gid, data c) # dm) aw)
      else loadGame_heads gids m dm (aw @ [gid]))"

definition loadGame_add :: "options \<Rightarrow> nat \<Rightarrow> queue_add" where
  "loadGame_add opts gid =
     \<lparr>q_queue = Queue, q_signal = o_signal opts, q_priority = Infinity,
      q_request = LcGetGame gid\<rparr>"

text \<open>
  The tail of \<^verbatim>\<open>loadGame(gameId)\<close>, once its fetch has settled. The fetches of one
  match-history call are taken to settle one after the other, in the order they were
  queued; when no game had to be fetched, \<^verbatim>\<open>Promise.allSettled\<close> resolves without a network
  round trip and the loader finishes in the same step.
\<close>

fun loadGame_tails :: "string \<Rightarrow> (nat \<times> (thrown + response)) list \<Rightarrow> main \<Rightarrow> (nat \<times> game) list
                        \<Rightarrow> main \<times> (nat \<times> game) list" where
  "loadGame_tails puuid [] m dm = (m, dm)"
| "loadGame_tails puuid ((gid, r) # rs) m dm =
     (case r of
        Inl err \<Rightarrow> loadGame_tails puuid rs (handleMatchHistoryError err puuid m) dm
      | Inr (RGame g) \<Rightarrow>
          loadGame_tails puuid rs
            (m\<lparr>gameLruMap := lru_set gid \<lparr>source = Lcu, data = g\<rparr> (gameLruMap m)\<rparr>)
            ((gid, g) # dm)
      | Inr _ \<Rightarrow> loadGame_tails puuid rs m dm)"

definition finish_mh_lcu :: "string \<Rightarrow> options \<Rightarrow> game list \<Rightarrow> (nat \<times> game) list \<Rightarrow> main \<Rightarrow> main" where
  "finish_mh_lcu puuid opts lightweight dm m =
     (let m1 = log_at Debug ''Load player match history completed: LCU API'' m;
          games = map (\<lambda>g. case map_of dm (gameId g) of None \<Rightarrow> g | Some d \<Rightarrow> d) lightweight;
          toBeLoaded = \<lparr>source = Lcu, data = games, targetCount = count_of opts, tag = None\<rparr>
      in commit_matchHistory puuid toBeLoaded m1)"

definition resume_mh_lcu_list :: "env \<Rightarrow> string \<Rightarrow> options \<Rightarrow> thrown + response \<Rightarrow> main \<Rightarrow> main" where
  "resume_mh_lcu_list e puuid opts r m =
     (case r of
        Inl err \<Rightarrow> handleMatchHistoryError err puuid m
      | Inr (RGames games) \<Rightarrow>
          (let m1 = loadGameTimeline e
                      (slice0 (gameTimelineLoadCount (settings m)) (map gameId games))
                      (sub_options (o_signal opts) (o_force opts) (o_useSgpApi opts) None) m;
               h = loadGame_heads (map gameId games) m1 [] []
           in case h of (m2, dm, aw) \<Rightarrow>
                if aw = [] then finish_mh_lcu puuid opts games dm m2
                else m2\<lparr>pending := pending m2 @
                          [\<lparr>adds = map (loadGame_add opts) aw,
                            cont = MhLcuDetails puuid opts games dm aw\<rparr>]\<rparr>)
      | Inr _ \<Rightarrow> m)"

definition resume_mh_lcu_details ::
  "string \<Rightarrow> options \<Rightarrow> game list \<Rightarrow> (nat \<times> game) list \<Rightarrow> nat list \<Rightarrow> (thrown + response) list
     \<Rightarrow> main \<Rightarrow> main" where
  "resume_mh_lcu_details puuid opts lightweight dm aw rs m =
     (case loadGame_tails puuid (zip aw rs) m dm of
        (m1, dm1) \<Rightarrow> finish_mh_lcu puuid opts lightweight dm1 m1)"

subsection \<open>Summoner, saved info, ranked stats, champion mastery\<close>

definition loadPlayerSummoner :: "string \<Rightarrow> options \<Rightarrow> main \<Rightarrow> main" where
  "loadPlayerSummoner puuid opts m =
     (if \<not> o_force opts \<and> summoner (state m) puuid \<noteq> None
      then log_at Debug ''Summoner info already exists'' m
      else enqueue \<lparr>q_queue = Queue, q_signal = o_signal opts,
                    q_priority = or_default (o_priority opts) LOADING_PRIORITY_SUMMONER,
                    q_request = LcGetSummonerByPuuid puuid\<rparr>
             (SummonerCont puuid) m)"

definition resume_summoner :: "string \<Rightarrow> thrown + response \<Rightarrow> main \<Rightarrow> main" where
  "resume_summoner puuid r m =
     (case r of
        Inl err \<Rightarrow> handleError err m
      | Inr (RJson d) \<Rightarrow>
          (let toBeLoaded = \<lparr>source = Lcu, data = d\<rparr>;
               m1 = log_at Debug ''Load summoner info completed'' m
           in sendEvent (EvSummonerLoaded puuid toBeLoaded)
                (m1\<lparr>state := (state m1)\<lparr>summoner := (summoner (state m1))(puuid \<mapsto> toBeLoaded)\<rparr>\<rparr>))
      | Inr _ \<Rightarrow> m)"

definition loadPlayerSavedInfo :: "env \<Rightarrow> string \<Rightarrow> options \<Rightarrow> main \<Rightarrow> main" where
  "loadPlayerSavedInfo e puuid opts m =
     (if \<not> lc_authAndMe e then m
      else if \<not> o_force opts \<and> savedInfo (state m) puuid \<noteq> None then m
      else enqueue \<lparr>q_queue = Queue, q_signal = o_signal opts,
                    q_priority = Priority LOADING_PRIORITY_SAVED_INFO,
                    q_request = QuerySavedPlayerWithGames puuid\<rparr>
             (SavedInfoCont puuid opts) m)"

definition resume_savedInfo :: "env \<Rightarrow> string \<Rightarrow> options \<Rightarrow> thrown + response \<Rightarrow> main \<Rightarrow> main" where
  "resume_savedInfo e puuid opts r m =
     (case r of
        Inl err \<Rightarrow> handleError err m
      | Inr (RSaved res) \<Rightarrow>
          (let m1 = loadAdditionalGame e (encounteredGames res)
                      (sub_options (o_signal opts) (o_force opts) (o_useSgpApi opts) None) m;
               m2 = fold (\<lambda>t. loadPlayerSummoner t
                                 (sub_options (o_signal opts) (o_force opts) False
                                    (Some (Priority LOADING_PRIORITY_ADDITIONAL_SUMMONER))))
                      (tags res) m1
           in sendEvent (EvSavedInfoLoaded puuid res)
                (m2\<lparr>state := (state m2)\<lparr>savedInfo := (savedInfo (state m2))(puuid \<mapsto> res)\<rparr>\<rparr>))
      | Inr _ \<Rightarrow> m)"

definition loadPlayerRankedStats :: "string \<Rightarrow> options \<Rightarrow> main \<Rightarrow> main" where
  "loadPlayerRankedStats puuid opts m =
     (if \<not> o_force opts \<and> rankedStats (state m) puuid \<noteq> None
      then log_at Debug ''Ranked stats already exists'' m
      else enqueue \<lparr>q_queue = MhQueue, q_signal = o_signal opts,
                    q_priority = or_default (o_priority opts) LOADING_PRIORITY_RANKED_STATS,
                    q_request = LcGetRankedStats puuid\<rparr>
             (RankedStatsCont puuid) m)"

definition resume_rankedStats :: "string \<Rightarrow> thrown + response \<Rightarrow> main \<Rightarrow> main" where
  "resume_rankedStats puuid r m =
     (case r of
        Inl err \<Rightarrow> handleError err m
      | Inr (RJson d) \<Rightarrow>
          (let toBeLoaded = \<lparr>source = Lcu, data = d\<rparr>;
               m1 = log_at Debug ''Load ranked stats completed'' m
           in sendEvent (EvRankedStatsLoaded puuid toBeLoaded)
                (m1\<lparr>state := (state m1)\<lparr>rankedStats := (rankedStats (state m1))(puuid \<mapsto> toBeLoaded)\<rparr>\<rparr>))
      | Inr _ \<Rightarrow> m)"

definition loadPlayerChampionMasteries :: "string \<Rightarrow> options \<Rightarrow> main \<Rightarrow> main" where
  "loadPlayerChampionMasteries puuid opts m =
     (if \<not> o_force opts \<and> championMastery (state m) puuid \<noteq> None
      then log_at Debug ''Champion mastery already exists'' m
      else enqueue \<lparr>q_queue = MhQueue, q_signal = o_signal opts,
                    q_priority = or_default (o_priority opts) LOADING_PRIORITY_CHAMPION_MASTERY,
                    q_request = LcGetPlayerChampionMastery puuid\<rparr>
             (ChampionMasteryCont puuid) m)"

definition resume_championMastery :: "string \<Rightarrow> thrown + response \<Rightarrow> main \<Rightarrow> main" where
  "resume_championMastery puuid r m =
     (case r of
        Inl err \<Rightarrow> handleError err m
      | Inr (RMastery ms) \<Rightarrow>
          (let simplifiedMastery = fold (\<lambda>cur obj. obj(fst cur \<mapsto> snd cur)) ms Map.empty;
               toBeLoaded = \<lparr>source = Lcu, data = simplifiedMastery\<rparr>;
               m1 = log_at Debug ''Load champion mastery completed'' m
           in sendEvent (EvChampionMasteryLoaded puuid)
                (m1\<lparr>state := (state m1)\<lparr>championMastery :=
                                           (championMastery (state m1))(puuid \<mapsto> toBeLoaded)\<rparr>\<rparr>))
      | Inr _ \<Rightarrow> m)"

section \<open>The orchestrator\<close>

definition valid_puuids :: "env \<Rightarrow> string list \<Rightarrow> string list" where
  "valid_puuids e ps = filter (\<lambda>p. p \<noteq> [] \<and> p \<noteq> EMPTY_PUUID e) ps"

definition getPuuidsToLoadForPlayers :: "env \<Rightarrow> string list" where
  "getPuuidsToLoadForPlayers e =
     (case queryStage_phase e of
        Unavailable \<Rightarrow> []
      | ChampSelect \<Rightarrow>
          (case champSelect_session e of
             None \<Rightarrow> []
           | Some (myTeam, theirTeam) \<Rightarrow> valid_puuids e myTeam @ valid_puuids e theirTeam)
      | InGame \<Rightarrow>
          (case gameflow_session e of
             None \<Rightarrow> []
           | Some (teamOne, teamTwo) \<Rightarrow> valid_puuids e teamOne @ valid_puuids e teamTwo))"

text \<open>The decimal digits of a number, for the template string \<^verbatim>\<open>q_${queueId}\<close>.\<close>

fun decimal :: "nat \<Rightarrow> string" where
  "decimal n =
     (if n < 10 then [''0123456789'' ! n]
      else decimal (n div 10) @ [''0123456789'' ! (n mod 10)])"

declare decimal.simps [simp del]

definition getCurrentGameMatchHistoryTag :: "env \<Rightarrow> string" where
  "getCurrentGameMatchHistoryTag e =
     (case queryStage_queueId e of
        None \<Rightarrow> ''all''
      | Some q \<Rightarrow> if (''q_'' @ decimal q) \<in> set SAFE_TAGS then ''q_'' @ decimal q else ''all'')"

definition load_player :: "env \<Rightarrow> nat option \<Rightarrow> nat option \<Rightarrow> bool \<Rightarrow> string \<Rightarrow> main \<Rightarrow> main" where
  "load_player e mhSignal sg force puuid m =
     (let m1 = loadPlayerMatchHistory e puuid
                 \<lparr>o_signal = sg, o_mhSignal = mhSignal,
                  o_tag = Some (if matchHistoryTagPreference (settings m) = Current
                                then getCurrentGameMatchHistoryTag e else ''all''),
                  o_count = Some (matchHistoryLoadCount (settings m)),
                  o_force = force,
                  o_useSgpApi = matchHistoryUseSgpApi (settings m),
                  o_priority = None\<rparr> m;
          m2 = loadPlayerSummoner puuid (sub_options sg force False None) m1;
          m3 = loadPlayerRankedStats puuid (sub_options sg force False None) m2;
          m4 = loadPlayerSavedInfo e puuid
                 (sub_options sg force (matchHistoryUseSgpApi (settings m3)) None) m3
      in loadPlayerChampionMasteries puuid (sub_options sg force False None) m4)"

definition champSelect :: "env \<Rightarrow> nat option \<Rightarrow> nat option \<Rightarrow> bool \<Rightarrow> main \<Rightarrow> main" where
  "champSelect e mhSignal sg force m =
     fold (load_player e mhSignal sg force) (getPuuidsToLoadForPlayers e) m"

definition inGame :: "env \<Rightarrow> nat option \<Rightarrow> nat option \<Rightarrow> bool \<Rightarrow> main \<Rightarrow> main" where
  "inGame e mhSignal sg force m =
     fold (load_player e mhSignal sg force) (getPuuidsToLoadForPlayers e) m"

definition abort_both :: "main \<Rightarrow> main" where
  "abort_both m =
     (let m1 = (abort_controller (controller m) m)\<lparr>controller := None\<rparr>
      in (abort_controller (mhController m1) m1)\<lparr>mhController := None\<rparr>)"

definition new_controllers :: "main \<Rightarrow> main" where
  "new_controllers m =
     m\<lparr>controller := Some (nextSignal m), mhController := Some (Suc (nextSignal m)),
       nextSignal := Suc (Suc (nextSignal m))\<rparr>"

definition dispatch_stage :: "env \<Rightarrow> bool \<Rightarrow> main \<Rightarrow> main" where
  "dispatch_stage e force m =
     (if queryStage_phase e = ChampSelect then champSelect e (mhController m) (controller m) force m
      else if queryStage_phase e = InGame then inGame e (mhController m) (controller m) force m
      else m)"

text \<open>
  The effect of the reaction installed by \<^verbatim>\<open>_handleLoad\<close>, run on every change of stage,
  \<^verbatim>\<open>enabled\<close>, token readiness or \<^verbatim>\<open>matchHistoryUseSgpApi\<close>: the start of a generation.
\<close>

definition handleLoad :: "env \<Rightarrow> main \<Rightarrow> main" where
  "handleLoad e m =
     (let m1 = log_at Info ''Handle auto match history loading'' m;
          m2 = debouncedUpdateMatchHistoryFn_cancel (abort_both m1)
      in if queryStage_phase e = Unavailable \<or> \<not> enabled (settings m2) \<or>
            (matchHistoryUseSgpApi (settings m2) \<and> \<not> sgp_isTokenReady e)
         then sendEvent EvClear (setMatchHistoryTag ''all'' (state_clear m2))
         else dispatch_stage e False (new_controllers m2))"

definition clearAndReload :: "env \<Rightarrow> main \<Rightarrow> main" where
  "clearAndReload e m =
     dispatch_stage e True (new_controllers (sendEvent EvClear (state_clear (abort_both m))))"

definition updateMatchHistory :: "env \<Rightarrow> main \<Rightarrow> main" where
  "updateMatchHistory e m =
     (if \<not> enabled (settings m) then m
      else if queryStage_phase e = Unavailable then m
      else
        (let m1 = (abort_controller (mhController m) m)\<lparr>mhController := None\<rparr>;
             c = nextSignal m1;
             m2 = m1\<lparr>mhController := Some c, nextSignal := Suc c\<rparr>
         in fold (\<lambda>puuid m'. loadPlayerMatchHistory e puuid
                               \<lparr>o_signal = None, o_mhSignal = Some c,
                                o_tag = Some (matchHistoryTag (state m')),
                                o_count = Some (matchHistoryLoadCount (settings m')),
                                o_force = False,
                                o_useSgpApi = matchHistoryUseSgpApi (settings m'),
                                o_priority = None\<rparr> m')
              (getPuuidsToLoadForPlayers e) m2))"

section \<open>Running the shard\<close>

text \<open>The code after an \<^verbatim>\<open>await\<close>, given what the awaited promises settled with.\<close>

definition resume :: "env \<Rightarrow> continuation \<Rightarrow> (thrown + response) list \<Rightarrow> main \<Rightarrow> main" where
  "resume e c rs m =
     (case c of
        MhLcuDetails puuid opts lightweight dm aw \<Rightarrow>
          resume_mh_lcu_details puuid opts lightweight dm aw rs m
      | _ \<Rightarrow>
          (case rs of
             [r] \<Rightarrow>
               (case c of
                  MhSgp puuid opts \<Rightarrow> resume_mh_sgp e puuid opts r m
                | MhLcuList puuid opts \<Rightarrow> resume_mh_lcu_list e puuid opts r m
                | TimelineCont gid src \<Rightarrow> resume_gameTimeline gid src r m
                | AdditionalGameCont gid src \<Rightarrow> resume_additionalGame gid src r m
                | SummonerCont puuid \<Rightarrow> resume_summoner puuid r m
                | SavedInfoCont puuid opts \<Rightarrow> resume_savedInfo e puuid opts r m
                | RankedStatsCont puuid \<Rightarrow> resume_rankedStats puuid r m
                | ChampionMasteryCont puuid \<Rightarrow> resume_championMastery puuid r m
                | _ \<Rightarrow> m)
           | _ \<Rightarrow> m))"

text \<open>
  The \<open>i\<close>-th suspended loader is resumed: the environment offers one outcome for each of
  its queued calls, and the queue turns the outcome of a cancelled call into a rejection.
\<close>

definition settle :: "env \<Rightarrow> nat \<Rightarrow> (thrown + response) list \<Rightarrow> main \<Rightarrow> main" where
  "settle e i rs m =
     (if i < length (pending m) \<and> length rs = length (adds (pending m ! i))
      then
        (let t = pending m ! i;
             m1 = m\<lparr>pending := take i (pending m) @ drop (Suc i) (pending m)\<rparr>
         in resume e (cont t) (map (\<lambda>ar. queue_result m (fst ar) (snd ar)) (zip (adds t) rs)) m1)
      else m)"

datatype event =
    StageOrSettingsChanged env
  | Settled env nat "(thrown + response) list"
  | ReloadCalled env
  | DebounceElapsed env
  | SetMatchHistoryTagCalled string
  | SettingChanged setting_change

fun step :: "event \<Rightarrow> main \<Rightarrow> main" where
  "step (StageOrSettingsChanged e) m = handleLoad e m"
| "step (Settled e i rs) m = settle e i rs m"
| "step (ReloadCalled e) m = clearAndReload e m"
| "step (DebounceElapsed e) m =
     (if debouncedUpdateScheduled m
      then updateMatchHistory e (m\<lparr>debouncedUpdateScheduled := False\<rparr>)
      else m)"
| "step (SetMatchHistoryTagCalled t) m = ipc_setMatchHistoryTag t m"
| "step (SettingChanged c) m = apply_change c m"

definition run :: "event list \<Rightarrow> main \<Rightarrow> main" where
  "run evs m = fold step evs m"

text \<open>
  The shard after \<^verbatim>\<open>onInit\<close>, before the first reaction has run: empty state maps, empty
  caches, no controller, both queues at the configured concurrency.
\<close>

definition startup :: "settings \<Rightarrow> main" where
  "startup st =
     \<lparr>settings = st,
      state = \<lparr>matchHistory = Map.empty, summoner = Map.empty, rankedStats = Map.empty,
               savedInfo = Map.empty, championMastery = Map.empty, gameTimeline = Map.empty,
               additionalGame = Map.empty, matchHistoryLoadingState = Map.empty,
               matchHistoryTag = ''all''\<rparr>,
      gameLruMap = [], gameTimelineLruMap = [],
      mhController = None, controller = None, abortedSignals = [], nextSignal = 0,
      mhQueue_concurrency = concurrency st, queue_concurrency = concurrency st,
      debouncedUpdateScheduled = False, pending = [], sent = [], logs = []\<rparr>"

definition settings0 :: settings where
  "settings0 =
     \<lparr>concurrency = 3, enabled = True, matchHistoryLoadCount = 20, premadeTeamThreshold = 3,
      matchHistoryUseSgpApi = False, matchHistoryTagPreference = All,
      gameTimelineLoadCount = 20\<rparr>"

section \<open>Invariant and concrete inputs\<close>

definition caches_bounded :: "main \<Rightarrow> bool" where
  "caches_bounded m =
     (length (gameLruMap m) \<le> maxSize \<and> length (gameTimelineLruMap m) \<le> maxSize)"

definition stored_tag_receivable :: "main \<Rightarrow> bool" where
  "stored_tag_receivable m = receivable_tag (Some (matchHistoryTag (state m)))"

text \<open>A cache filled to capacity with the games 0 to 399, game 399 accessed last.\<close>

definition full_cache :: "(nat \<times> game sourced) list" where
  "full_cache = map (\<lambda>i. (i, \<lparr>source = Lcu, data = Game i ''g''\<rparr>)) (rev [0..<400])"

text \<open>
  A champion-select stage with one player, the SGP servers not (yet) reporting match-history
  support, and the in-game stage that follows it, the support flag now set.
\<close>

definition env_champSelect :: env where
  "env_champSelect =
     \<lparr>queryStage_phase = ChampSelect, queryStage_queueId = Some 420,
      champSelect_session = Some ([''p1''], []), gameflow_session = None,
      sgp_isTokenReady = True, sgp_matchHistorySupported = False, lc_authAndMe = True,
      EMPTY_PUUID = ''00000000-0000-0000-0000-000000000000''\<rparr>"

definition env_inGame :: env where
  "env_inGame =
     \<lparr>queryStage_phase = InGame, queryStage_queueId = Some 420,
      champSelect_session = None, gameflow_session = Some ([''p1''], []),
      sgp_isTokenReady = True, sgp_matchHistorySupported = True, lc_authAndMe = True,
      EMPTY_PUUID = ''00000000-0000-0000-0000-000000000000''\<rparr>"

definition settings_sgp :: settings where
  "settings_sgp =
     settings0\<lparr>matchHistoryUseSgpApi := True, matchHistoryTagPreference := Current\<rparr>"

definition notFound404 :: thrown where
  "notFound404 = \<lparr>instanceofError = True, e_name = ''AxiosError'', isAxiosError = True,
                   response_status = Some 404\<rparr>"

definition serverError :: thrown where
  "serverError = \<lparr>instanceofError = True, e_name = ''AxiosError'', isAxiosError = True,
                   response_status = Some 500\<rparr>"

text \<open>
  Generation 1 starts in champion select and takes the LCU path; its match-history list
  arrives and the detail of game 7 is requested. The stage changes: generation 2 starts
  and takes the SGP path. Then the detail request of generation 1 settles, and at last
  the match-history request of generation 2 fails.
\<close>

definition stale_trace :: "event list" where
  "stale_trace =
     [StageOrSettingsChanged env_champSelect,
      Settled env_champSelect 0 [Inr (RGames [Game 7 ''light''])],
      StageOrSettingsChanged env_inGame,
      Settled env_inGame 5 [Inr (RGame (Game 7 ''full''))],
      Settled env_inGame 5 [Inl serverError]]"

text \<open>A champion select on the LCU path in which the timeline of game 7 gets loaded.\<close>

definition timeline_trace :: "event list" where
  "timeline_trace =
     [StageOrSettingsChanged env_champSelect,
      Settled env_champSelect 0 [Inr (RGames [Game 7 ''light''])],
      Settled env_champSelect 4 [Inr (RTimeline (GameTimeline ''t7''))]]"

definition tagged_options :: "string \<Rightarrow> options" where
  "tagged_options t =
     \<lparr>o_signal = None, o_mhSignal = None, o_tag = Some t, o_count = Some 20,
      o_force = False, o_useSgpApi = True, o_priority = None\<rparr>"

definition lcu_options :: options where
  "lcu_options =
     \<lparr>o_signal = Some 0, o_mhSignal = Some 1, o_tag = Some ''all'', o_count = Some 20,
      o_force = False, o_useSgpApi = False, o_priority = None\<rparr>"

section \<open>Properties of the caches\<close>

lemma lru_remove_absent: "k \<notin> set (lru_keys c) \<Longrightarrow> lru_remove k c = c"
  by (induction c) (auto simp: lru_remove_def lru_keys_def)

lemma lru_remove_shorter: "map_of c k = Some v \<Longrightarrow> length (lru_remove k c) < length c"
proof (induction c)
  case Nil
  then show ?case by simp
next
  case (Cons a c)
  have le: "length (filter (\<lambda>kv. fst kv \<noteq> k) c) \<le> length c" by (rule length_filter_le)
  show ?case
  proof (cases "fst a = k")
    case True
    then show ?thesis using le by (simp add: lru_remove_def less_Suc_eq_le)
  next
    case False
    then have "map_of c k = Some v" using Cons.prems by (cases a) auto
    then show ?thesis using Cons.IH False by (simp add: lru_remove_def)
  qed
qed

lemma lru_set_bounded: "length (lru_set k v c) \<le> maxSize"
  by (simp add: lru_set_def)

lemma lru_get_bounded: "length c \<le> maxSize \<Longrightarrow> length (snd (lru_get k c)) \<le> maxSize"
proof (cases "map_of c k")
  case None
  assume "length c \<le> maxSize"
  then show ?thesis using None by (simp add: lru_get_def)
next
  case (Some v)
  assume b: "length c \<le> maxSize"
  from lru_remove_shorter [OF Some] b show ?thesis using Some by (simp add: lru_get_def)
qed

lemma lru_apply_bounded: "length c \<le> maxSize \<Longrightarrow> length (lru_apply op c) \<le> maxSize"
  by (cases op) (simp_all add: lru_set_bounded lru_get_bounded)

lemma lru_ops_bounded: "length c \<le> maxSize \<Longrightarrow> length (fold lru_apply ops c) \<le> maxSize"
  by (induction ops arbitrary: c) (simp_all add: lru_apply_bounded)

lemma lru_set_new_keys:
  "k \<notin> set (lru_keys c) \<Longrightarrow> lru_keys (lru_set k v c) = take maxSize (k # lru_keys c)"
proof -
  assume new: "k \<notin> set (lru_keys c)"
  have "lru_keys (lru_set k v c) = map fst (take maxSize ((k, v) # c))"
    by (simp only: lru_set_def lru_remove_absent [OF new] lru_keys_def)
  also have "\<dots> = take maxSize (map fst ((k, v) # c))"
    by (rule take_map [symmetric])
  finally show ?thesis by (simp add: lru_keys_def)
qed

lemma take_append_take: "take n (xs @ take n ys) = take n (xs @ ys)"
  by (simp add: min_def)

lemma lru_distinct_inserts:
  "distinct ks \<Longrightarrow> set ks \<inter> set (lru_keys c) = {} \<Longrightarrow> length c \<le> maxSize \<Longrightarrow>
   lru_keys (fold (\<lambda>k. lru_set k (f k)) ks c) = take maxSize (rev ks @ lru_keys c)"
proof (induction ks arbitrary: c)
  case Nil
  then show ?case by (simp add: lru_keys_def)
next
  case (Cons k ks)
  have new: "k \<notin> set (lru_keys c)" using Cons.prems by auto
  have keys: "lru_keys (lru_set k (f k) c) = take maxSize (k # lru_keys c)"
    by (rule lru_set_new_keys [OF new])
  have "set (take maxSize (k # lru_keys c)) \<subseteq> insert k (set (lru_keys c))"
    using set_take_subset [of maxSize "k # lru_keys c"] by simp
  then have disj: "set ks \<inter> set (lru_keys (lru_set k (f k) c)) = {}"
    using Cons.prems keys by auto
  have "lru_keys (fold (\<lambda>k. lru_set k (f k)) ks (lru_set k (f k) c))
          = take maxSize (rev ks @ lru_keys (lru_set k (f k) c))"
    using Cons.IH [OF _ disj lru_set_bounded] Cons.prems by simp
  then show ?case by (simp add: keys take_append_take del: take_Suc_Cons)
qed


lemma lru_evicts_oldest:
  assumes full: "length c = maxSize" and new: "k \<notin> set (lru_keys c)"
  shows "lru_keys (lru_set k v c) = k # butlast (lru_keys c)"
    and "lru_oldest c = Some (last (lru_keys c))"
proof -
  have "lru_keys (lru_set k v c) = take maxSize (k # lru_keys c)"
    by (rule lru_set_new_keys [OF new])
  also have "\<dots> = k # take (maxSize - 1) (lru_keys c)"
    by (simp add: maxSize_def)
  also have "take (maxSize - 1) (lru_keys c) = butlast (lru_keys c)"
    using full by (simp add: butlast_conv_take lru_keys_def)
  finally show "lru_keys (lru_set k v c) = k # butlast (lru_keys c)" .
  have ne: "c \<noteq> []" using full by (auto simp: maxSize_def)
  then show "lru_oldest c = Some (last (lru_keys c))"
    by (cases c rule: rev_cases) (simp_all add: lru_oldest_def lru_keys_def)
qed

lemma lru_get_front:
  "map_of c k = Some v \<Longrightarrow> lru_keys (snd (lru_get k c)) = k # filter (\<lambda>k'. k' \<noteq> k) (lru_keys c)"
  by (simp add: lru_get_def lru_keys_def lru_remove_def filter_map comp_def)

lemma lru_set_front:
  "lru_keys (lru_set k v c) = take maxSize (k # filter (\<lambda>k'. k' \<noteq> k) (lru_keys c))"
proof -
  have "lru_keys (lru_set k v c) = take maxSize (map fst ((k, v) # lru_remove k c))"
    by (simp only: lru_set_def lru_keys_def take_map)
  then show ?thesis by (simp add: lru_remove_def lru_keys_def filter_map comp_def)
qed

section \<open>Both caches stay bounded in every run\<close>

lemma frame_caches [simp]:
  "gameLruMap (setMatchHistoryTag t m) = gameLruMap m"
  "gameTimelineLruMap (setMatchHistoryTag t m) = gameTimelineLruMap m"
  "gameLruMap (setMatchHistoryLoadingState p l m) = gameLruMap m"
  "gameTimelineLruMap (setMatchHistoryLoadingState p l m) = gameTimelineLruMap m"
  "gameLruMap (state_clear m) = gameLruMap m"
  "gameTimelineLruMap (state_clear m) = gameTimelineLruMap m"
  "gameLruMap (sendEvent ev m) = gameLruMap m"
  "gameTimelineLruMap (sendEvent ev m) = gameTimelineLruMap m"
  "gameLruMap (log_at lv s m) = gameLruMap m"
  "gameTimelineLruMap (log_at lv s m) = gameTimelineLruMap m"
  "gameLruMap (enqueue a c m) = gameLruMap m"
  "gameTimelineLruMap (enqueue a c m) = gameTimelineLruMap m"
  "gameLruMap (abort_controller n m) = gameLruMap m"
  "gameTimelineLruMap (abort_controller n m) = gameTimelineLruMap m"
  by (simp_all add: setMatchHistoryTag_def setMatchHistoryLoadingState_def state_clear_def
        sendEvent_def log_at_def enqueue_def abort_controller_def split: option.splits)

lemma frame_caches_handlers [simp]:
  "gameLruMap (handleError e m) = gameLruMap m"
  "gameTimelineLruMap (handleError e m) = gameTimelineLruMap m"
  "gameLruMap (handleMatchHistoryError e p m) = gameLruMap m"
  "gameTimelineLruMap (handleMatchHistoryError e p m) = gameTimelineLruMap m"
  "gameLruMap (commit_gameTimeline g v m) = gameLruMap m"
  "gameTimelineLruMap (commit_gameTimeline g v m) = gameTimelineLruMap m"
  "gameLruMap (commit_additionalGame g w m) = gameLruMap m"
  "gameTimelineLruMap (commit_additionalGame g w m) = gameTimelineLruMap m"
  "gameLruMap (commit_matchHistory p r m) = gameLruMap m"
  "gameTimelineLruMap (commit_matchHistory p r m) = gameTimelineLruMap m"
  "gameLruMap (sgp_set_tag t m) = gameLruMap m"
  "gameTimelineLruMap (sgp_set_tag t m) = gameTimelineLruMap m"
  by (simp_all add: handleError_def handleMatchHistoryError_def commit_gameTimeline_def
        commit_additionalGame_def commit_matchHistory_def sgp_set_tag_def split: option.splits)

lemma cb_cong:
  "gameLruMap m' = gameLruMap m \<Longrightarrow> gameTimelineLruMap m' = gameTimelineLruMap m \<Longrightarrow>
   caches_bounded m \<Longrightarrow> caches_bounded m'"
  by (simp add: caches_bounded_def)

lemma cb_loadGameTimeline1: "caches_bounded m \<Longrightarrow> caches_bounded (loadGameTimeline1 e opts gid m)"
  by (auto simp: caches_bounded_def loadGameTimeline1_def Let_def lru_get_bounded
        split: option.splits)

lemma cb_loadGameTimeline: "caches_bounded m \<Longrightarrow> caches_bounded (loadGameTimeline e gids opts m)"
  unfolding loadGameTimeline_def
  by (induction gids arbitrary: m) (simp_all add: cb_loadGameTimeline1)

lemma cb_loadAdditionalGame1: "caches_bounded m \<Longrightarrow> caches_bounded (loadAdditionalGame1 e opts gid m)"
  by (auto simp: caches_bounded_def loadAdditionalGame1_def Let_def lru_get_bounded
        split: option.splits)

lemma cb_loadAdditionalGame: "caches_bounded m \<Longrightarrow> caches_bounded (loadAdditionalGame e gids opts m)"
  unfolding loadAdditionalGame_def
  by (induction gids arbitrary: m) (simp_all add: cb_loadAdditionalGame1)

lemma cb_resume_gameTimeline: "caches_bounded m \<Longrightarrow> caches_bounded (resume_gameTimeline gid src r m)"
  by (auto simp: caches_bounded_def resume_gameTimeline_def Let_def lru_set_bounded
        split: sum.splits response.splits)

lemma cb_resume_additionalGame: "caches_bounded m \<Longrightarrow> caches_bounded (resume_additionalGame gid src r m)"
  by (auto simp: caches_bounded_def resume_additionalGame_def Let_def lru_set_bounded
        split: sum.splits response.splits)

lemma cb_loadPlayerMatchHistory: "caches_bounded m \<Longrightarrow> caches_bounded (loadPlayerMatchHistory e p opts m)"
  by (auto simp: caches_bounded_def loadPlayerMatchHistory_def Let_def)

lemma cb_commit_matchHistory: "caches_bounded m \<Longrightarrow> caches_bounded (commit_matchHistory p r m)"
  by (simp add: caches_bounded_def)

lemma cb_resume_mh_sgp: "caches_bounded m \<Longrightarrow> caches_bounded (resume_mh_sgp e p opts r m)"
proof -
  assume b: "caches_bounded m"
  have l: "\<And>s. caches_bounded (log_at Debug s m)" using b by (simp add: caches_bounded_def)
  show ?thesis
    by (auto simp: resume_mh_sgp_def Let_def b l cb_commit_matchHistory cb_loadGameTimeline
          intro: cb_cong [OF _ _ b] split: sum.splits response.splits)
qed


lemma cb_loadGame_heads:
  "caches_bounded m \<Longrightarrow> caches_bounded (fst (loadGame_heads gids m dm aw))"
proof (induction gids arbitrary: m dm aw)
  case Nil
  then show ?case by simp
next
  case (Cons gid gids)
  have b': "caches_bounded (m\<lparr>gameLruMap := snd (lru_get gid (gameLruMap m))\<rparr>)"
    using Cons.prems by (simp add: caches_bounded_def lru_get_bounded)
  show ?case
    using Cons.IH [OF Cons.prems] Cons.IH [OF b']
    by (simp split: option.splits)
qed

lemma cb_loadGame_tails:
  "caches_bounded m \<Longrightarrow> caches_bounded (fst (loadGame_tails p rs m dm))"
proof (induction rs arbitrary: m dm)
  case Nil
  then show ?case by simp
next
  case (Cons a rs)
  obtain gid r where a: "a = (gid, r)" by (cases a)
  have b1: "\<And>err. caches_bounded (handleMatchHistoryError err p m)"
    using Cons.prems by (simp add: caches_bounded_def)
  have b2: "\<And>g. caches_bounded (m\<lparr>gameLruMap := lru_set gid \<lparr>source = Lcu, data = g\<rparr> (gameLruMap m)\<rparr>)"
    using Cons.prems by (simp add: caches_bounded_def lru_set_bounded)
  show ?case
    using Cons.IH [OF Cons.prems] Cons.IH [OF b1] Cons.IH [OF b2]
    by (simp add: a split: sum.splits response.splits)
qed

lemma cb_finish_mh_lcu: "caches_bounded m \<Longrightarrow> caches_bounded (finish_mh_lcu p opts lw dm m)"
  by (simp add: caches_bounded_def finish_mh_lcu_def Let_def)

lemma cb_pending: "caches_bounded m \<Longrightarrow> caches_bounded (m\<lparr>pending := ps\<rparr>)"
  by (simp add: caches_bounded_def)

lemma cb_resume_mh_lcu_list:
  assumes b: "caches_bounded m"
  shows "caches_bounded (resume_mh_lcu_list e p opts r m)"
proof (cases r)
  case (Inl err)
  then show ?thesis using b by (simp add: resume_mh_lcu_list_def caches_bounded_def)
next
  case (Inr resp)
  show ?thesis
  proof (cases resp)
    case (RGames games)
    let ?m1 = "loadGameTimeline e (slice0 (gameTimelineLoadCount (settings m)) (map gameId games))
                 (sub_options (o_signal opts) (o_force opts) (o_useSgpApi opts) None) m"
    obtain m2 dm aw where h: "loadGame_heads (map gameId games) ?m1 [] [] = (m2, dm, aw)"
      by (cases "loadGame_heads (map gameId games) ?m1 [] []") auto
    have "caches_bounded ?m1" by (rule cb_loadGameTimeline [OF b])
    from cb_loadGame_heads [OF this, of "map gameId games" "[]" "[]"] h
    have b2: "caches_bounded m2" by simp
    show ?thesis
      using Inr RGames h b2
      by (simp add: resume_mh_lcu_list_def Let_def cb_finish_mh_lcu cb_pending)
  qed (use Inr b in \<open>simp_all add: resume_mh_lcu_list_def\<close>)
qed

lemma cb_resume_mh_lcu_details:
  assumes b: "caches_bounded m"
  shows "caches_bounded (resume_mh_lcu_details p opts lw dm aw rs m)"
proof -
  obtain m1 dm1 where t: "loadGame_tails p (zip aw rs) m dm = (m1, dm1)"
    by (cases "loadGame_tails p (zip aw rs) m dm") auto
  from cb_loadGame_tails [OF b, of p "zip aw rs" dm] t have "caches_bounded m1" by simp
  then show ?thesis by (simp add: resume_mh_lcu_details_def t cb_finish_mh_lcu)
qed

lemma cb_loadPlayerSummoner: "caches_bounded m \<Longrightarrow> caches_bounded (loadPlayerSummoner p opts m)"
  by (simp add: caches_bounded_def loadPlayerSummoner_def)

lemma cb_loadPlayerRankedStats: "caches_bounded m \<Longrightarrow> caches_bounded (loadPlayerRankedStats p opts m)"
  by (simp add: caches_bounded_def loadPlayerRankedStats_def)

lemma cb_loadPlayerChampionMasteries:
  "caches_bounded m \<Longrightarrow> caches_bounded (loadPlayerChampionMasteries p opts m)"
  by (simp add: caches_bounded_def loadPlayerChampionMasteries_def)

lemma cb_loadPlayerSavedInfo: "caches_bounded m \<Longrightarrow> caches_bounded (loadPlayerSavedInfo e p opts m)"
  by (simp add: caches_bounded_def loadPlayerSavedInfo_def)

lemma cb_resume_summoner: "caches_bounded m \<Longrightarrow> caches_bounded (resume_summoner p r m)"
  by (simp add: caches_bounded_def resume_summoner_def Let_def split: sum.splits response.splits)

lemma cb_resume_rankedStats: "caches_bounded m \<Longrightarrow> caches_bounded (resume_rankedStats p r m)"
  by (simp add: caches_bounded_def resume_rankedStats_def Let_def split: sum.splits response.splits)

lemma cb_resume_championMastery: "caches_bounded m \<Longrightarrow> caches_bounded (resume_championMastery p r m)"
  by (simp add: caches_bounded_def resume_championMastery_def Let_def
        split: sum.splits response.splits)

lemma cb_fold: "(\<And>x m. P m \<Longrightarrow> P (f x m)) \<Longrightarrow> P m \<Longrightarrow> P (fold f xs m)"
  by (induction xs arbitrary: m) simp_all

lemma cb_resume_savedInfo:
  assumes b: "caches_bounded m"
  shows "caches_bounded (resume_savedInfo e p opts r m)"
proof (cases r)
  case (Inl err)
  then show ?thesis using b by (simp add: resume_savedInfo_def caches_bounded_def)
next
  case (Inr resp)
  show ?thesis
  proof (cases resp)
    case (RSaved res)
    let ?m1 = "loadAdditionalGame e (encounteredGames res)
                 (sub_options (o_signal opts) (o_force opts) (o_useSgpApi opts) None) m"
    let ?m2 = "fold (\<lambda>t. loadPlayerSummoner t
                             (sub_options (o_signal opts) (o_force opts) False
                                (Some (Priority LOADING_PRIORITY_ADDITIONAL_SUMMONER))))
                 (tags res) ?m1"
    have "caches_bounded ?m1" by (rule cb_loadAdditionalGame [OF b])
    then have "caches_bounded ?m2" by (rule cb_fold [rotated]) (rule cb_loadPlayerSummoner)
    then show ?thesis
      using Inr RSaved by (simp add: resume_savedInfo_def Let_def caches_bounded_def)
  qed (use Inr b in \<open>simp_all add: resume_savedInfo_def\<close>)
qed

lemma cb_load_player: "caches_bounded m \<Longrightarrow> caches_bounded (load_player e ms sg force p m)"
  unfolding load_player_def Let_def
  by (intro cb_loadPlayerChampionMasteries cb_loadPlayerSavedInfo cb_loadPlayerRankedStats
        cb_loadPlayerSummoner cb_loadPlayerMatchHistory)

lemma cb_dispatch_stage: "caches_bounded m \<Longrightarrow> caches_bounded (dispatch_stage e force m)"
  by (simp add: dispatch_stage_def champSelect_def inGame_def cb_fold [where P = caches_bounded]
        cb_load_player)

lemma cb_abort_both: "caches_bounded m \<Longrightarrow> caches_bounded (abort_both m)"
  by (simp add: caches_bounded_def abort_both_def Let_def)

lemma cb_new_controllers: "caches_bounded m \<Longrightarrow> caches_bounded (new_controllers m)"
  by (simp add: caches_bounded_def new_controllers_def)

lemma cb_handleLoad: "caches_bounded m \<Longrightarrow> caches_bounded (handleLoad e m)"
proof -
  assume b: "caches_bounded m"
  let ?m2 = "debouncedUpdateMatchHistoryFn_cancel
               (abort_both (log_at Info ''Handle auto match history loading'' m))"
  have b2: "caches_bounded ?m2"
    using b by (simp add: caches_bounded_def abort_both_def Let_def
                  debouncedUpdateMatchHistoryFn_cancel_def)
  have c: "caches_bounded (sendEvent EvClear (setMatchHistoryTag ''all'' (state_clear ?m2)))"
    using b2 by (simp add: caches_bounded_def)
  have d: "caches_bounded (dispatch_stage e False (new_controllers ?m2))"
    by (intro cb_dispatch_stage cb_new_controllers b2)
  show ?thesis using c d by (simp add: handleLoad_def Let_def)
qed

lemma cb_clearAndReload: "caches_bounded m \<Longrightarrow> caches_bounded (clearAndReload e m)"
proof -
  assume b: "caches_bounded m"
  have "caches_bounded (sendEvent EvClear (state_clear (abort_both m)))"
    using cb_abort_both [OF b] by (simp add: caches_bounded_def)
  then show ?thesis
    unfolding clearAndReload_def by (intro cb_dispatch_stage cb_new_controllers)
qed

lemma cb_updateMatchHistory: "caches_bounded m \<Longrightarrow> caches_bounded (updateMatchHistory e m)"
proof -
  assume b: "caches_bounded m"
  show ?thesis
    unfolding updateMatchHistory_def Let_def
    using b by (auto intro!: cb_fold [where P = caches_bounded] cb_loadPlayerMatchHistory)
      (simp add: caches_bounded_def)
qed

lemma cb_resume: "caches_bounded m \<Longrightarrow> caches_bounded (resume e c rs m)"
  by (simp add: resume_def cb_resume_mh_lcu_details cb_resume_mh_sgp cb_resume_mh_lcu_list
        cb_resume_gameTimeline cb_resume_additionalGame cb_resume_summoner cb_resume_savedInfo
        cb_resume_rankedStats cb_resume_championMastery
        split: continuation.splits list.splits)

lemma cb_settle: "caches_bounded m \<Longrightarrow> caches_bounded (settle e i rs m)"
  by (simp add: settle_def Let_def cb_resume cb_pending)

lemma cb_settings:
  "caches_bounded m \<Longrightarrow> caches_bounded (onChange_gameTimelineLoadCount v m)"
  "caches_bounded m \<Longrightarrow> caches_bounded (onChange_matchHistoryLoadCount v m)"
  "caches_bounded m \<Longrightarrow> caches_bounded (ipc_setMatchHistoryTag t m)"
  by (simp_all add: caches_bounded_def onChange_gameTimelineLoadCount_def
        onChange_matchHistoryLoadCount_def setting_set_gameTimelineLoadCount_def
        debouncedUpdateMatchHistoryFn_def ipc_setMatchHistoryTag_def Let_def)

lemma cb_step: "caches_bounded m \<Longrightarrow> caches_bounded (step ev m)"
proof (cases ev)
  case (DebounceElapsed e)
  assume b: "caches_bounded m"
  then have "caches_bounded (m\<lparr>debouncedUpdateScheduled := False\<rparr>)"
    by (simp add: caches_bounded_def)
  then show ?thesis using b DebounceElapsed by (simp add: cb_updateMatchHistory)
next
  case (SettingChanged c)
  assume "caches_bounded m"
  then show ?thesis using SettingChanged by (cases c) (simp_all add: cb_settings)
qed (simp_all add: cb_handleLoad cb_settle cb_clearAndReload cb_settings)

lemma cb_run: "caches_bounded m \<Longrightarrow> caches_bounded (run evs m)"
  unfolding run_def by (rule cb_fold [where P = caches_bounded]) (rule cb_step)

lemma cb_startup: "caches_bounded (startup st)"
  by (simp add: caches_bounded_def startup_def)

section \<open>The resident keys follow the accesses\<close>

lemma lru_has_iff: "lru_has k c = (k \<in> set (lru_keys c))"
  by (simp add: lru_has_def lru_keys_def map_of_eq_None_iff)

lemma lru_get_miss: "\<not> lru_has k c \<Longrightarrow> snd (lru_get k c) = c"
  by (simp add: lru_has_def lru_get_def)

lemma lru_get_hit: "lru_has k c \<Longrightarrow> lru_keys (snd (lru_get k c)) = touch k (lru_keys c)"
  by (auto simp: lru_has_def touch_def dest: lru_get_front)

lemma lru_set_touch: "lru_keys (lru_set k v c) = take maxSize (touch k (lru_keys c))"
  by (simp add: lru_set_front touch_def)

lemma distinct_touch: "distinct u \<Longrightarrow> distinct (touch k u)"
  by (simp add: touch_def)

lemma filter_take_present:
  "distinct u \<Longrightarrow> k \<in> set (take (Suc n) u) \<Longrightarrow>
   filter (\<lambda>k'. k' \<noteq> k) (take (Suc n) u) = take n (filter (\<lambda>k'. k' \<noteq> k) u)"
proof (induction u arbitrary: n)
  case Nil
  then show ?case by simp
next
  case (Cons x xs)
  show ?case
  proof (cases "x = k")
    case True
    then have "k \<notin> set xs" using Cons.prems(1) by simp
    then have "filter (\<lambda>k'. k' \<noteq> k) xs = xs"
      and "filter (\<lambda>k'. k' \<noteq> k) (take n xs) = take n xs"
      by (auto simp: filter_id_conv dest: in_set_takeD)
    then show ?thesis using True by simp
  next
    case False
    then have "k \<in> set (take n xs)" using Cons.prems(2) by simp
    then obtain n' where n: "n = Suc n'" by (cases n) auto
    have "filter (\<lambda>k'. k' \<noteq> k) (take (Suc n') xs) = take n' (filter (\<lambda>k'. k' \<noteq> k) xs)"
      using Cons.IH [of n'] Cons.prems \<open>k \<in> set (take n xs)\<close> n by simp
    then show ?thesis using False n by simp
  qed
qed

lemma take_filter_take:
  "distinct u \<Longrightarrow>
   take n (filter (\<lambda>k'. k' \<noteq> k) (take (Suc n) u)) = take n (filter (\<lambda>k'. k' \<noteq> k) u)"
proof (induction u arbitrary: n)
  case Nil
  then show ?case by simp
next
  case (Cons x xs)
  show ?case
  proof (cases n)
    case 0
    then show ?thesis by simp
  next
    case (Suc n')
    show ?thesis
    proof (cases "x = k")
      case True
      then have "k \<notin> set xs" using Cons.prems by simp
      then have "filter (\<lambda>k'. k' \<noteq> k) xs = xs"
        and "filter (\<lambda>k'. k' \<noteq> k) (take n xs) = take n xs"
        by (auto simp: filter_id_conv dest: in_set_takeD)
      then show ?thesis using True by simp
    next
      case False
      have "take n' (filter (\<lambda>k'. k' \<noteq> k) (take (Suc n') xs)) = take n' (filter (\<lambda>k'. k' \<noteq> k) xs)"
        using Cons.IH [of n'] Cons.prems by simp
      then show ?thesis using False Suc by simp
    qed
  qed
qed

lemma touch_take_set:
  assumes "distinct u"
  shows "take maxSize (touch k (take maxSize u)) = take maxSize (touch k u)"
proof -
  have m: "maxSize = Suc 399" by (simp add: maxSize_def)
  show ?thesis
    unfolding touch_def m using take_filter_take [OF assms, of 399 k] by simp
qed

lemma touch_take_get:
  assumes "distinct u" and "k \<in> set (take maxSize u)"
  shows "touch k (take maxSize u) = take maxSize (touch k u)"
proof -
  have m: "maxSize = Suc 399" by (simp add: maxSize_def)
  show ?thesis
    unfolding touch_def m using filter_take_present [OF assms(1), of k 399] assms(2)
    by (simp add: m)
qed

lemma resident_keys_follow_accesses:
  "distinct u \<Longrightarrow> lru_keys c = take maxSize u \<Longrightarrow>
   lru_keys (fold lru_apply ops c) = take maxSize (fold touch (accesses ops c) u)"
proof (induction ops arbitrary: c u)
  case Nil
  then show ?case by simp
next
  case (Cons op ops)
  show ?case
  proof (cases op)
    case (LruSet k v)
    have "lru_keys (lru_set k v c) = take maxSize (touch k u)"
      using Cons.prems by (simp add: lru_set_touch touch_take_set)
    from Cons.IH [OF distinct_touch [OF Cons.prems(1)] this]
    show ?thesis using LruSet by simp
  next
    case (LruGet k)
    show ?thesis
    proof (cases "lru_has k c")
      case True
      then have "k \<in> set (take maxSize u)" using Cons.prems(2) by (simp add: lru_has_iff)
      then have "lru_keys (snd (lru_get k c)) = take maxSize (touch k u)"
        using Cons.prems True by (simp add: lru_get_hit touch_take_get)
      from Cons.IH [OF distinct_touch [OF Cons.prems(1)] this]
      show ?thesis using LruGet True by simp
    next
      case False
      then have same: "snd (lru_get k c) = c" by (rule lru_get_miss)
      from Cons.IH [OF Cons.prems(1), of c] Cons.prems(2)
      show ?thesis using LruGet False same by simp
    qed
  qed
qed

lemma resident_keys_from_empty:
  "lru_keys (fold lru_apply ops []) = take maxSize (recency (accesses ops []))"
  using resident_keys_follow_accesses [of "[]" "[]" ops]
  by (simp add: recency_def lru_keys_def)

section \<open>The stored tag in every run\<close>

lemma frame_tag [simp]:
  "matchHistoryTag (state (setMatchHistoryLoadingState p l m)) = matchHistoryTag (state m)"
  "matchHistoryTag (state (state_clear m)) = matchHistoryTag (state m)"
  "matchHistoryTag (state (sendEvent ev m)) = matchHistoryTag (state m)"
  "matchHistoryTag (state (log_at lv s m)) = matchHistoryTag (state m)"
  "matchHistoryTag (state (enqueue a c m)) = matchHistoryTag (state m)"
  "matchHistoryTag (state (abort_controller n m)) = matchHistoryTag (state m)"
  "matchHistoryTag (state (handleError e m)) = matchHistoryTag (state m)"
  "matchHistoryTag (state (handleMatchHistoryError e p m)) = matchHistoryTag (state m)"
  "matchHistoryTag (state (commit_gameTimeline g v m)) = matchHistoryTag (state m)"
  "matchHistoryTag (state (commit_additionalGame g w m)) = matchHistoryTag (state m)"
  "matchHistoryTag (state (commit_matchHistory p r m)) = matchHistoryTag (state m)"
  "matchHistoryTag (state (setMatchHistoryTag t m)) = t"
  by (simp_all add: setMatchHistoryLoadingState_def state_clear_def sendEvent_def log_at_def
        enqueue_def abort_controller_def handleError_def handleMatchHistoryError_def
        commit_gameTimeline_def commit_additionalGame_def commit_matchHistory_def
        setMatchHistoryTag_def split: option.splits)

lemma tag_loadGameTimeline1 [simp]:
  "matchHistoryTag (state (loadGameTimeline1 e opts gid m)) = matchHistoryTag (state m)"
  by (simp add: loadGameTimeline1_def Let_def split: option.splits)

lemma tag_loadGameTimeline [simp]:
  "matchHistoryTag (state (loadGameTimeline e gids opts m)) = matchHistoryTag (state m)"
  unfolding loadGameTimeline_def by (induction gids arbitrary: m) simp_all

lemma tag_loadAdditionalGame1 [simp]:
  "matchHistoryTag (state (loadAdditionalGame1 e opts gid m)) = matchHistoryTag (state m)"
  by (simp add: loadAdditionalGame1_def Let_def split: option.splits)

lemma tag_loadAdditionalGame [simp]:
  "matchHistoryTag (state (loadAdditionalGame e gids opts m)) = matchHistoryTag (state m)"
  unfolding loadAdditionalGame_def by (induction gids arbitrary: m) simp_all

lemma tag_simple_loaders [simp]:
  "matchHistoryTag (state (loadPlayerSummoner p opts m)) = matchHistoryTag (state m)"
  "matchHistoryTag (state (loadPlayerRankedStats p opts m)) = matchHistoryTag (state m)"
  "matchHistoryTag (state (loadPlayerChampionMasteries p opts m)) = matchHistoryTag (state m)"
  "matchHistoryTag (state (loadPlayerSavedInfo e p opts m)) = matchHistoryTag (state m)"
  by (simp_all add: loadPlayerSummoner_def loadPlayerRankedStats_def
        loadPlayerChampionMasteries_def loadPlayerSavedInfo_def)

lemma tag_simple_resumes [simp]:
  "matchHistoryTag (state (resume_gameTimeline gid src r m)) = matchHistoryTag (state m)"
  "matchHistoryTag (state (resume_additionalGame gid src r m)) = matchHistoryTag (state m)"
  "matchHistoryTag (state (resume_summoner p r m)) = matchHistoryTag (state m)"
  "matchHistoryTag (state (resume_rankedStats p r m)) = matchHistoryTag (state m)"
  "matchHistoryTag (state (resume_championMastery p r m)) = matchHistoryTag (state m)"
  "matchHistoryTag (state (resume_mh_sgp e p opts r m)) = matchHistoryTag (state m)"
  by (simp_all add: resume_gameTimeline_def resume_additionalGame_def resume_summoner_def
        resume_rankedStats_def resume_championMastery_def resume_mh_sgp_def Let_def
        sendEvent_def log_at_def split: sum.splits response.splits)

lemma tag_fold_summoner [simp]:
  "matchHistoryTag (state (fold (\<lambda>t. loadPlayerSummoner t opts) ts m)) = matchHistoryTag (state m)"
  by (induction ts arbitrary: m) simp_all

lemma tag_resume_savedInfo [simp]:
  "matchHistoryTag (state (resume_savedInfo e p opts r m)) = matchHistoryTag (state m)"
  by (simp add: resume_savedInfo_def Let_def sendEvent_def split: sum.splits response.splits)

lemma tag_loadGame_heads [simp]:
  "matchHistoryTag (state (fst (loadGame_heads gids m dm aw))) = matchHistoryTag (state m)"
  by (induction gids arbitrary: m dm aw) (simp_all split: option.splits)

lemma tag_loadGame_tails [simp]:
  "matchHistoryTag (state (fst (loadGame_tails p rs m dm))) = matchHistoryTag (state m)"
proof (induction rs arbitrary: m dm)
  case Nil
  then show ?case by simp
next
  case (Cons a rs)
  obtain gid r where a: "a = (gid, r)" by (cases a)
  show ?case by (simp add: a Cons.IH split: sum.splits response.splits)
qed

lemma tag_finish_mh_lcu [simp]:
  "matchHistoryTag (state (finish_mh_lcu p opts lw dm m)) = matchHistoryTag (state m)"
  by (simp add: finish_mh_lcu_def Let_def)

lemma tag_resume_mh_lcu_details [simp]:
  "matchHistoryTag (state (resume_mh_lcu_details p opts lw dm aw rs m)) = matchHistoryTag (state m)"
proof -
  obtain m1 dm1 where t: "loadGame_tails p (zip aw rs) m dm = (m1, dm1)"
    by (cases "loadGame_tails p (zip aw rs) m dm") auto
  from tag_loadGame_tails [of p "zip aw rs" m dm] t
  have "matchHistoryTag (state m1) = matchHistoryTag (state m)" by simp
  then show ?thesis by (simp add: resume_mh_lcu_details_def t)
qed

lemma tag_resume_mh_lcu_list [simp]:
  "matchHistoryTag (state (resume_mh_lcu_list e p opts r m)) = matchHistoryTag (state m)"
proof (cases r)
  case (Inl err)
  then show ?thesis by (simp add: resume_mh_lcu_list_def)
next
  case (Inr resp)
  show ?thesis
  proof (cases resp)
    case (RGames games)
    let ?m1 = "loadGameTimeline e (slice0 (gameTimelineLoadCount (settings m)) (map gameId games))
                 (sub_options (o_signal opts) (o_force opts) (o_useSgpApi opts) None) m"
    obtain m2 dm aw where h: "loadGame_heads (map gameId games) ?m1 [] [] = (m2, dm, aw)"
      by (cases "loadGame_heads (map gameId games) ?m1 [] []") auto
    from tag_loadGame_heads [of "map gameId games" ?m1 "[]" "[]"] h
    have "matchHistoryTag (state m2) = matchHistoryTag (state m)" by simp
    then show ?thesis
      using Inr RGames h by (simp add: resume_mh_lcu_list_def Let_def)
  qed (use Inr in \<open>simp_all add: resume_mh_lcu_list_def\<close>)
qed

lemma tag_resume [simp]:
  "matchHistoryTag (state (resume e c rs m)) = matchHistoryTag (state m)"
  by (simp add: resume_def split: continuation.splits list.splits)

lemma receivable_all: "receivable_tag (Some ''all'')"
  by (simp add: receivable_tag_def)

lemma receivable_current: "receivable_tag (Some (getCurrentGameMatchHistoryTag e))"
  by (simp add: receivable_tag_def getCurrentGameMatchHistoryTag_def split: option.splits)

lemma tr_loadPlayerMatchHistory:
  "stored_tag_receivable m \<Longrightarrow> stored_tag_receivable (loadPlayerMatchHistory e p opts m)"
  by (auto simp: stored_tag_receivable_def loadPlayerMatchHistory_def Let_def sgp_set_tag_def
        receivable_tag_def split: option.splits)

lemma tr_load_player:
  "stored_tag_receivable m \<Longrightarrow> stored_tag_receivable (load_player e ms sg force p m)"
proof -
  assume a: "stored_tag_receivable m"
  have "\<And>opts. stored_tag_receivable (loadPlayerMatchHistory e p opts m)"
    by (rule tr_loadPlayerMatchHistory [OF a])
  then show ?thesis
    by (simp add: load_player_def Let_def stored_tag_receivable_def)
qed

lemma tr_dispatch_stage:
  "stored_tag_receivable m \<Longrightarrow> stored_tag_receivable (dispatch_stage e force m)"
  by (simp add: dispatch_stage_def champSelect_def inGame_def
        cb_fold [where P = stored_tag_receivable] tr_load_player)

lemma tr_frame:
  "matchHistoryTag (state m') = matchHistoryTag (state m) \<Longrightarrow>
   stored_tag_receivable m \<Longrightarrow> stored_tag_receivable m'"
  by (simp add: stored_tag_receivable_def)

lemma tag_abort_both [simp]: "matchHistoryTag (state (abort_both m)) = matchHistoryTag (state m)"
  by (simp add: abort_both_def Let_def)

lemma tag_new_controllers [simp]:
  "matchHistoryTag (state (new_controllers m)) = matchHistoryTag (state m)"
  by (simp add: new_controllers_def)

lemma tr_handleLoad: "stored_tag_receivable m \<Longrightarrow> stored_tag_receivable (handleLoad e m)"
proof -
  assume a: "stored_tag_receivable m"
  let ?m2 = "debouncedUpdateMatchHistoryFn_cancel
               (abort_both (log_at Info ''Handle auto match history loading'' m))"
  have b2: "stored_tag_receivable (new_controllers ?m2)"
    using a by (simp add: stored_tag_receivable_def debouncedUpdateMatchHistoryFn_cancel_def)
  have c: "stored_tag_receivable (sendEvent EvClear (setMatchHistoryTag ''all'' (state_clear ?m2)))"
    by (simp add: stored_tag_receivable_def receivable_all)
  show ?thesis using c tr_dispatch_stage [OF b2] by (simp add: handleLoad_def Let_def)
qed

lemma tr_clearAndReload: "stored_tag_receivable m \<Longrightarrow> stored_tag_receivable (clearAndReload e m)"
proof -
  assume a: "stored_tag_receivable m"
  have "stored_tag_receivable (new_controllers (sendEvent EvClear (state_clear (abort_both m))))"
    using a by (simp add: stored_tag_receivable_def)
  then show ?thesis unfolding clearAndReload_def by (rule tr_dispatch_stage)
qed

lemma tr_updateMatchHistory:
  "stored_tag_receivable m \<Longrightarrow> stored_tag_receivable (updateMatchHistory e m)"
  unfolding updateMatchHistory_def Let_def
  by (auto intro!: cb_fold [where P = stored_tag_receivable] tr_loadPlayerMatchHistory)
    (simp add: stored_tag_receivable_def)

lemma tr_settle: "stored_tag_receivable m \<Longrightarrow> stored_tag_receivable (settle e i rs m)"
  by (simp add: settle_def Let_def stored_tag_receivable_def)

lemma tr_step: "stored_tag_receivable m \<Longrightarrow> stored_tag_receivable (step ev m)"
proof (cases ev)
  case (DebounceElapsed e)
  assume a: "stored_tag_receivable m"
  then have "stored_tag_receivable (m\<lparr>debouncedUpdateScheduled := False\<rparr>)"
    by (simp add: stored_tag_receivable_def)
  then show ?thesis using a DebounceElapsed by (simp add: tr_updateMatchHistory)
next
  case (SetMatchHistoryTagCalled t)
  assume "stored_tag_receivable m"
  then show ?thesis
    using SetMatchHistoryTagCalled
    by (auto simp: ipc_setMatchHistoryTag_def stored_tag_receivable_def receivable_tag_def
          debouncedUpdateMatchHistoryFn_def setMatchHistoryTag_def)
next
  case (SettingChanged c)
  assume "stored_tag_receivable m"
  then show ?thesis
    using SettingChanged
    by (cases c) (simp_all add: stored_tag_receivable_def onChange_gameTimelineLoadCount_def
          onChange_matchHistoryLoadCount_def setting_set_gameTimelineLoadCount_def
          debouncedUpdateMatchHistoryFn_def Let_def)
qed (simp_all add: tr_handleLoad tr_settle tr_clearAndReload)

lemma stored_tag_always_receivable: "stored_tag_receivable (run evs (startup st))"
proof -
  have "stored_tag_receivable (startup st)"
    by (simp add: stored_tag_receivable_def startup_def receivable_tag_def)
  then show ?thesis
    unfolding run_def by (rule cb_fold [where P = stored_tag_receivable, rotated]) (rule tr_step)
qed

section \<open>Caches\<close>

text \<open>
  Claim C8. Each of the two game-keyed caches holds at most 400 entries at all times;
  inserting 401 distinct game ids leaves exactly 400 resident entries; an insertion over
  capacity evicts exactly the least-recently-accessed entry. The resident keys of a cache
  are the 400 keys accessed last, in the order of their last access: a \<^verbatim>\<open>set\<close> and a \<^verbatim>\<open>get\<close>
  that finds its key move the key to the front, a \<^verbatim>\<open>get\<close> that misses changes nothing, and
  the key an insertion into a full cache evicts is the one whose last access is oldest.
\<close>

theorem caches_hold_at_most_400:
  "length (gameLruMap (run evs (startup st))) \<le> 400
   \<and> length (gameTimelineLruMap (run evs (startup st))) \<le> 400
   \<and> length (fold lru_apply ops []) \<le> 400
   \<and> lru_keys (fold lru_apply ops []) = take 400 (recency (accesses ops []))
   \<and> (length (fold lru_apply ops []) = 400 \<longrightarrow>
        lru_oldest (fold lru_apply ops []) = Some (recency (accesses ops []) ! 399))
   \<and> (lru_has k c \<longrightarrow> lru_keys (snd (lru_get k c)) = k # filter (\<lambda>k'. k' \<noteq> k) (lru_keys c))
   \<and> (\<not> lru_has k c \<longrightarrow> lru_get k c = (None, c))
   \<and> lru_keys (lru_set k v c) = take 400 (k # filter (\<lambda>k'. k' \<noteq> k) (lru_keys c))
   \<and> (distinct ks \<longrightarrow>
        lru_keys (fold (\<lambda>k. lru_set k (f k)) ks []) = take 400 (rev ks)
        \<and> length (fold (\<lambda>k. lru_set k (f k)) ks []) = min (length ks) 400)
   \<and> (length c = 400 \<and> k \<notin> set (lru_keys c) \<longrightarrow>
        lru_oldest c = Some (last (lru_keys c))
        \<and> lru_keys (lru_set k v c) = k # butlast (lru_keys c))"
proof (intro conjI impI)
  have "caches_bounded (run evs (startup st))"
    by (rule cb_run [OF cb_startup])
  then show "length (gameLruMap (run evs (startup st))) \<le> 400"
    and "length (gameTimelineLruMap (run evs (startup st))) \<le> 400"
    by (simp_all add: caches_bounded_def maxSize_def)
next
  have "length (fold lru_apply ops ([] :: ('a \<times> 'b) list)) \<le> maxSize"
    by (rule lru_ops_bounded) simp
  then show "length (fold lru_apply ops ([] :: ('a \<times> 'b) list)) \<le> 400"
    by (simp add: maxSize_def)
next
  show keys: "lru_keys (fold lru_apply ops []) = take 400 (recency (accesses ops []))"
    using resident_keys_from_empty [of ops] by (simp add: maxSize_def)
  assume full: "length (fold lru_apply ops []) = 400"
  let ?c = "fold lru_apply ops ([] :: ('a \<times> 'b) list)"
  have ne: "?c \<noteq> []" using full by auto
  have len: "length (lru_keys ?c) = 400" using full by (simp add: lru_keys_def)
  have "lru_oldest ?c = Some (last (lru_keys ?c))"
    using ne by (cases ?c rule: rev_cases) (simp_all add: lru_oldest_def lru_keys_def)
  also have "last (lru_keys ?c) = lru_keys ?c ! 399"
  proof -
    have "lru_keys ?c \<noteq> []" using len by auto
    from last_conv_nth [OF this] len show ?thesis by simp
  qed
  also have "\<dots> = recency (accesses ops []) ! 399"
    by (simp add: keys)
  finally show "lru_oldest ?c = Some (recency (accesses ops []) ! 399)" .
next
  assume "lru_has k c"
  then show "lru_keys (snd (lru_get k c)) = k # filter (\<lambda>k'. k' \<noteq> k) (lru_keys c)"
    using lru_get_hit [of k c] by (simp add: touch_def)
next
  assume "\<not> lru_has k c"
  then show "lru_get k c = (None, c)"
    by (simp add: lru_has_def lru_get_def)
next
  show "lru_keys (lru_set k v c) = take 400 (k # filter (\<lambda>k'. k' \<noteq> k) (lru_keys c))"
    using lru_set_touch [of k v c] by (simp add: touch_def maxSize_def)
next
  assume d: "distinct ks"
  show k4: "lru_keys (fold (\<lambda>k. lru_set k (f k)) ks []) = take 400 (rev ks)"
    using lru_distinct_inserts [OF d, where c = "[]" and f = f]
    by (simp add: lru_keys_def maxSize_def)
  have "length (fold (\<lambda>k. lru_set k (f k)) ks []) = length (lru_keys (fold (\<lambda>k. lru_set k (f k)) ks []))"
    by (simp add: lru_keys_def)
  then show "length (fold (\<lambda>k. lru_set k (f k)) ks []) = min (length ks) 400"
    by (simp add: k4 min.commute)
next
  assume a: "length c = 400 \<and> k \<notin> set (lru_keys c)"
  then have full: "length c = maxSize" and new: "k \<notin> set (lru_keys c)"
    by (simp_all add: maxSize_def)
  show "lru_oldest c = Some (last (lru_keys c))"
    by (rule lru_evicts_oldest(2) [OF full new])
  show "lru_keys (lru_set k v c) = k # butlast (lru_keys c)"
    by (rule lru_evicts_oldest(1) [OF full new])
qed

theorem caches_hold_at_most_400_witness:
  "distinct [0..<401]
   \<and> length (fold (\<lambda>k. lru_set k \<lparr>source = Lcu, data = Game k ''g''\<rparr>) [0..<401] []) = 400
   \<and> lru_keys (fold (\<lambda>k. lru_set k \<lparr>source = Lcu, data = Game k ''g''\<rparr>) [0..<401] [])
        = take 400 (rev [0..<401])
   \<and> length full_cache = 400 \<and> 400 \<notin> set (lru_keys full_cache)
   \<and> lru_oldest full_cache = Some (last (lru_keys full_cache))
   \<and> lru_keys (lru_set 400 \<lparr>source = Lcu, data = Game 400 ''g''\<rparr> full_cache)
        = 400 # butlast (lru_keys full_cache)
   \<and> lru_has 7 full_cache
   \<and> lru_keys (snd (lru_get 7 full_cache)) = 7 # filter (\<lambda>k'. k' \<noteq> 7) (lru_keys full_cache)
   \<and> \<not> lru_has 400 full_cache
   \<and> lru_get 400 full_cache = (None, full_cache)"
proof -
  have d: "distinct [0..<401]" by simp
  have c: "length full_cache = 400 \<and> 400 \<notin> set (lru_keys full_cache)"
    by (simp add: full_cache_def lru_keys_def comp_def)
  have h7: "lru_has 7 full_cache"
    by (simp add: lru_has_iff full_cache_def lru_keys_def comp_def)
  have h400: "\<not> lru_has 400 full_cache"
    by (simp add: lru_has_iff full_cache_def lru_keys_def comp_def)
  note t = caches_hold_at_most_400 [where evs = "[]" and st = settings0
              and ops = "[] :: (nat, game sourced) lru_op list" and ks = "[0..<401]"
              and f = "\<lambda>k. \<lparr>source = Lcu, data = Game k ''g''\<rparr>" and c = full_cache
              and k = 400 and v = "\<lparr>source = Lcu, data = Game 400 ''g''\<rparr>"]
  note u = caches_hold_at_most_400 [where evs = "[]" and st = settings0
              and ops = "[] :: (nat, game sourced) lru_op list" and ks = "[0..<401]"
              and f = "\<lambda>k. \<lparr>source = Lcu, data = Game k ''g''\<rparr>" and c = full_cache
              and k = 7 and v = "\<lparr>source = Lcu, data = Game 7 ''g''\<rparr>"]
  from t d have n: "length (fold (\<lambda>k. lru_set k \<lparr>source = Lcu, data = Game k ''g''\<rparr>) [0..<401] []) = 400"
    by simp
  show ?thesis using t u d c h7 h400 n by blast
qed

section \<open>Settings\<close>

text \<open>
  Claim C7. After every change to \<open>matchHistoryLoadCount\<close> (accepted only in 1..200) or to
  \<open>gameTimelineLoadCount\<close> (accepted only in 0..\<open>matchHistoryLoadCount\<close>, otherwise clamped),
  \<open>gameTimelineLoadCount \<le> matchHistoryLoadCount\<close> holds, whatever the settings were before.
\<close>

theorem timeline_count_never_exceeds_history_count:
  "gameTimelineLoadCount (settings (apply_change c m))
     \<le> matchHistoryLoadCount (settings (apply_change c m))
   \<and> matchHistoryLoadCount (settings (onChange_matchHistoryLoadCount v m))
       = (if 1 \<le> v \<and> v \<le> 200 then v else matchHistoryLoadCount (settings m))
   \<and> gameTimelineLoadCount (settings (onChange_gameTimelineLoadCount v m))
       = (if 0 \<le> v \<and> v \<le> matchHistoryLoadCount (settings m) then v
          else matchHistoryLoadCount (settings m))"
proof (intro conjI)
  have clamped: "\<And>w n. gameTimelineLoadCount (settings (onChange_gameTimelineLoadCount w n))
                    \<le> matchHistoryLoadCount (settings (onChange_gameTimelineLoadCount w n))"
    by (simp add: onChange_gameTimelineLoadCount_def)
  show "gameTimelineLoadCount (settings (apply_change c m))
     \<le> matchHistoryLoadCount (settings (apply_change c m))"
  proof (cases c)
    case (SetMatchHistoryLoadCount w)
    then show ?thesis
      by (simp add: onChange_matchHistoryLoadCount_def setting_set_gameTimelineLoadCount_def
            Let_def clamped)
  next
    case (SetGameTimelineLoadCount w)
    then show ?thesis by (simp add: clamped)
  qed
next
  show "matchHistoryLoadCount (settings (onChange_matchHistoryLoadCount v m))
       = (if 1 \<le> v \<and> v \<le> 200 then v else matchHistoryLoadCount (settings m))"
    by (auto simp: onChange_matchHistoryLoadCount_def setting_set_gameTimelineLoadCount_def
          onChange_gameTimelineLoadCount_def debouncedUpdateMatchHistoryFn_def Let_def)
next
  show "gameTimelineLoadCount (settings (onChange_gameTimelineLoadCount v m))
       = (if 0 \<le> v \<and> v \<le> matchHistoryLoadCount (settings m) then v
          else matchHistoryLoadCount (settings m))"
    by (simp add: onChange_gameTimelineLoadCount_def)
qed

text \<open>
  The same bound under the other reading of \<^verbatim>\<open>this._setting.set\<close>, a plain store of the value:
  settings that satisfy the bound before a change of \<open>matchHistoryLoadCount\<close> satisfy it
  after the store of \<^verbatim>\<open>Math.min(value, gameTimelineLoadCount)\<close>.
\<close>

lemma clamp_under_plain_store:
  assumes "gameTimelineLoadCount s \<le> matchHistoryLoadCount s"
  shows "min v (gameTimelineLoadCount s)
           \<le> matchHistoryLoadCount (if 1 \<le> v \<and> v \<le> 200 then s\<lparr>matchHistoryLoadCount := v\<rparr> else s)"
  using assms by auto

section \<open>IPC\<close>

text \<open>
  Claim C10. The \<open>setMatchHistoryTag\<close> call does nothing for a tag that is neither "all"
  nor in the known-safe tag set: the stored tag stays and no reload is scheduled. For
  "all" or a known-safe tag it stores the tag and arms the debounced reload.
\<close>

theorem set_tag_ignores_unknown_tags:
  "(t \<noteq> ''all'' \<and> t \<notin> set SAFE_TAGS \<longrightarrow> ipc_setMatchHistoryTag t m = m)
   \<and> (t = ''all'' \<or> t \<in> set SAFE_TAGS \<longrightarrow>
        matchHistoryTag (state (ipc_setMatchHistoryTag t m)) = t
        \<and> debouncedUpdateScheduled (ipc_setMatchHistoryTag t m))"
  by (auto simp: ipc_setMatchHistoryTag_def setMatchHistoryTag_def
        debouncedUpdateMatchHistoryFn_def)

theorem set_tag_ignores_unknown_tags_witness:
  "(''q_999'' \<noteq> ''all'' \<and> ''q_999'' \<notin> set SAFE_TAGS)
   \<and> ipc_setMatchHistoryTag ''q_999'' (startup settings0) = startup settings0
   \<and> (''q_420'' = ''all'' \<or> ''q_420'' \<in> set SAFE_TAGS)
   \<and> matchHistoryTag (state (ipc_setMatchHistoryTag ''q_420'' (startup settings0))) = ''q_420''
   \<and> debouncedUpdateScheduled (ipc_setMatchHistoryTag ''q_420'' (startup settings0))"
  using set_tag_ignores_unknown_tags [of "''q_999''" "startup settings0"]
        set_tag_ignores_unknown_tags [of "''q_420''" "startup settings0"]
  by (simp add: SAFE_TAGS_def)

section \<open>Error handling\<close>

text \<open>
  Claim C6 states one three-way taxonomy for all loader failures: an abort is logged at
  info level and sets the match-history loading state to \<open>Aborted\<close>; a not-found response
  is benign and logged at info level; any other failure is logged at warn level, with the
  match-history loading state \<open>Error\<close>. The match-history handler does not follow it: a
  not-found response there is logged at warn level and sets the state \<open>Error\<close>.
\<close>

theorem match_history_not_found_counts_as_error:
  "classify notFound404 = NotFoundClass
   \<and> spec_level (classify notFound404) = Info
   \<and> map fst (logged_by (handleMatchHistoryError notFound404 ''p1'') (startup settings0)) = [Warn]
   \<and> matchHistoryLoadingState
         (state (handleMatchHistoryError notFound404 ''p1'' (startup settings0))) ''p1''
       = Some Error"
  by (simp add: classify_def spec_level_def notFound404_def isAbortError_def isNotFound_def
        logged_by_def handleMatchHistoryError_def setMatchHistoryLoadingState_def log_at_def
        startup_def)

text \<open>
  Claim C6, amended. A failure handled by the generic handler (summoner, ranked stats,
  champion mastery, saved info, additional game, game timeline) follows the taxonomy: an
  abort and a not-found response are logged at info level, anything else at warn level;
  the handler appends that one log entry and changes nothing else, and the loader ends
  with what the handler left, committing nothing. The match-history handler knows two
  cases only: an abort sets the player's loading state to \<open>Aborted\<close> and logs nothing; every
  other failure, a not-found response included, is logged at warn level and sets the
  state to \<open>Error\<close>; it changes nothing else. A failed match-history query ends the loader
  with what this handler left, on both paths; a failed detail fetch of the LCU path calls
  the same handler and leaves the game without a detailed record.
\<close>

theorem handlers_follow_their_taxonomy:
  "map fst (logged_by (handleError e) m) = [spec_level (classify e)]
   \<and> state (handleError e m) = state m
   \<and> (classify e = AbortedClass \<longrightarrow>
        logged_by (handleMatchHistoryError e p) m = []
        \<and> matchHistoryLoadingState (state (handleMatchHistoryError e p m)) p = Some Aborted)
   \<and> (classify e \<noteq> AbortedClass \<longrightarrow>
        map fst (logged_by (handleMatchHistoryError e p) m) = [Warn]
        \<and> matchHistoryLoadingState (state (handleMatchHistoryError e p m)) p = Some Error)
   \<and> matchHistory (state (handleMatchHistoryError e p m)) = matchHistory (state m)
   \<and> handleError e m = m\<lparr>logs := logs m @ logged_by (handleError e) m\<rparr>
   \<and> handleMatchHistoryError e p m
       = m\<lparr>logs := logs m @ logged_by (handleMatchHistoryError e p) m,
            state := (state m)\<lparr>matchHistoryLoadingState :=
              (matchHistoryLoadingState (state m))
                (p \<mapsto> matchHistoryLoadingState_after e)\<rparr>\<rparr>
   \<and> resume env (SummonerCont p) [Inl e] m = handleError e m
   \<and> resume env (RankedStatsCont p) [Inl e] m = handleError e m
   \<and> resume env (ChampionMasteryCont p) [Inl e] m = handleError e m
   \<and> resume env (SavedInfoCont p opts) [Inl e] m = handleError e m
   \<and> resume env (AdditionalGameCont gid src) [Inl e] m = handleError e m
   \<and> resume env (TimelineCont gid src) [Inl e] m = handleError e m
   \<and> resume env (MhSgp p opts) [Inl e] m = handleMatchHistoryError e p m
   \<and> resume env (MhLcuList p opts) [Inl e] m = handleMatchHistoryError e p m
   \<and> loadGame_tails p [(gid, Inl e)] m dm = (handleMatchHistoryError e p m, dm)"
  by (simp add: logged_by_def handleError_def handleMatchHistoryError_def classify_def
        spec_level_def log_at_def setMatchHistoryLoadingState_def resume_def
        resume_summoner_def resume_rankedStats_def resume_championMastery_def
        resume_savedInfo_def resume_additionalGame_def resume_gameTimeline_def
        resume_mh_sgp_def resume_mh_lcu_list_def matchHistoryLoadingState_after_def)

theorem handlers_follow_their_taxonomy_witness:
  "classify abortError = AbortedClass
   \<and> logged_by (handleMatchHistoryError abortError ''p1'') (startup settings0) = []
   \<and> matchHistoryLoadingState
         (state (handleMatchHistoryError abortError ''p1'' (startup settings0))) ''p1''
       = Some Aborted
   \<and> classify serverError \<noteq> AbortedClass
   \<and> map fst (logged_by (handleMatchHistoryError serverError ''p1'') (startup settings0)) = [Warn]
   \<and> matchHistoryLoadingState
         (state (handleMatchHistoryError serverError ''p1'' (startup settings0))) ''p1''
       = Some Error
   \<and> map fst (logged_by (handleError notFound404) (startup settings0)) = [Info]"
proof -
  have a: "classify abortError = AbortedClass"
    by (simp add: classify_def abortError_def isAbortError_def)
  have s: "classify serverError \<noteq> AbortedClass"
    by (simp add: classify_def serverError_def isAbortError_def isNotFound_def)
  have n: "spec_level (classify notFound404) = Info"
    by (simp add: classify_def spec_level_def notFound404_def isAbortError_def isNotFound_def)
  note x = handlers_follow_their_taxonomy [where e = abortError and m = "startup settings0"
             and p = "''p1''" and env = env_inGame and opts = lcu_options and gid = 7
             and src = Lcu and dm = "[]"]
  note y = handlers_follow_their_taxonomy [where e = serverError and m = "startup settings0"
             and p = "''p1''" and env = env_inGame and opts = lcu_options and gid = 7
             and src = Lcu and dm = "[]"]
  note z = handlers_follow_their_taxonomy [where e = notFound404 and m = "startup settings0"
             and p = "''p1''" and env = env_inGame and opts = lcu_options and gid = 7
             and src = Lcu and dm = "[]"]
  from z n have zi: "map fst (logged_by (handleError notFound404) (startup settings0)) = [Info]"
    by simp
  show ?thesis using x y a s zi by blast
qed

section \<open>The snapshot\<close>

lemma getAll_fields:
  "all_matchHistory (getAll m) = matchHistory (state m)"
  "all_summoner (getAll m) = summoner (state m)"
  "all_rankedStats (getAll m) = rankedStats (state m)"
  "all_savedInfo (getAll m) = savedInfo (state m)"
  "all_championMastery (getAll m) = championMastery (state m)"
  "all_additionalGames (getAll m) = additionalGame (state m)"
  "all_gameTimeline (getAll m) = additionalGame (state m)"
  by (simp_all add: getAll_def)

text \<open>
  Claim C2 says that every field of the \<open>getAll\<close> snapshot equals the state map of its
  category. The field \<open>gameTimeline\<close> is filled from the additional-game map: after a run
  that loaded the timeline of game 7 and no additional game, the snapshot has no
  timeline for game 7.
\<close>

theorem getAll_loses_loaded_timeline:
  "gameTimeline (state (run timeline_trace (startup settings0))) 7
     = Some \<lparr>source = Lcu, data = GameTimeline ''t7''\<rparr>
   \<and> all_gameTimeline (getAll (run timeline_trace (startup settings0))) 7 = None"
  by code_simp

section \<open>Queues\<close>

text \<open>
  Queue, signal and priority of the request each loader adds when it does not skip, and
  the concurrency both queues are given.
\<close>

lemma queue_and_priority_of_each_loader:
  "o_force opts \<or> summoner (state m) p = None \<Longrightarrow>
     map adds (pending (loadPlayerSummoner p opts m))
       = map adds (pending m) @
         [[\<lparr>q_queue = Queue, q_signal = o_signal opts,
            q_priority = or_default (o_priority opts) 6,
            q_request = LcGetSummonerByPuuid p\<rparr>]]"
  "o_force opts \<or> rankedStats (state m) p = None \<Longrightarrow>
     map adds (pending (loadPlayerRankedStats p opts m))
       = map adds (pending m) @
         [[\<lparr>q_queue = MhQueue, q_signal = o_signal opts,
            q_priority = or_default (o_priority opts) 3,
            q_request = LcGetRankedStats p\<rparr>]]"
  "o_force opts \<or> championMastery (state m) p = None \<Longrightarrow>
     map adds (pending (loadPlayerChampionMasteries p opts m))
       = map adds (pending m) @
         [[\<lparr>q_queue = MhQueue, q_signal = o_signal opts,
            q_priority = or_default (o_priority opts) 2,
            q_request = LcGetPlayerChampionMastery p\<rparr>]]"
  "lc_authAndMe e \<Longrightarrow> o_force opts \<or> savedInfo (state m) p = None \<Longrightarrow>
     map adds (pending (loadPlayerSavedInfo e p opts m))
       = map adds (pending m) @
         [[\<lparr>q_queue = Queue, q_signal = o_signal opts, q_priority = Priority 4,
            q_request = QuerySavedPlayerWithGames p\<rparr>]]"
  "isAbleToUseSgpApi e opts \<Longrightarrow> \<not> mh_unchanged e p opts m \<Longrightarrow>
     map (map q_queue) (map adds (pending (loadPlayerMatchHistory e p opts m)))
       = map (map q_queue) (map adds (pending m)) @ [[MhQueue]]
     \<and> map (map q_priority) (map adds (pending (loadPlayerMatchHistory e p opts m)))
       = map (map q_priority) (map adds (pending m)) @ [[or_default (o_priority opts) 5]]"
  "\<not> isAbleToUseSgpApi e opts \<Longrightarrow> \<not> mh_unchanged e p opts m \<Longrightarrow>
     map (map q_queue) (map adds (pending (loadPlayerMatchHistory e p opts m)))
       = map (map q_queue) (map adds (pending m)) @ [[Queue]]
     \<and> map (map q_priority) (map adds (pending (loadPlayerMatchHistory e p opts m)))
       = map (map q_priority) (map adds (pending m)) @ [[or_default (o_priority opts) 5]]"
  by (auto simp: loadPlayerSummoner_def loadPlayerRankedStats_def loadPlayerChampionMasteries_def
        loadPlayerSavedInfo_def loadPlayerMatchHistory_def Let_def enqueue_def
        setMatchHistoryLoadingState_def sgp_set_tag_def setMatchHistoryTag_def log_at_def
        LOADING_PRIORITY_SUMMONER_def LOADING_PRIORITY_RANKED_STATS_def
        LOADING_PRIORITY_CHAMPION_MASTERY_def LOADING_PRIORITY_SAVED_INFO_def
        LOADING_PRIORITY_MATCH_HISTORY_def split: option.splits)

lemma queue_and_priority_of_game_loaders:
  "set (map adds (pending (loadGameTimeline1 e opts gid m)))
     \<subseteq> set (map adds (pending m)) \<union>
       {[\<lparr>q_queue = Queue, q_signal = o_signal opts, q_priority = Priority 1,
          q_request = SgpGetTimelineLcuFormat gid\<rparr>],
        [\<lparr>q_queue = Queue, q_signal = o_signal opts, q_priority = Priority 1,
          q_request = LcGetTimeline gid\<rparr>]}"
  "set (map adds (pending (loadAdditionalGame1 e opts gid m)))
     \<subseteq> set (map adds (pending m)) \<union>
       {[\<lparr>q_queue = Queue, q_signal = o_signal opts, q_priority = Priority 2,
          q_request = SgpGetGameSummaryLcuFormat gid\<rparr>],
        [\<lparr>q_queue = Queue, q_signal = o_signal opts, q_priority = Priority 2,
          q_request = LcGetGame gid\<rparr>]}"
  by (auto simp: loadGameTimeline1_def loadAdditionalGame1_def Let_def enqueue_def log_at_def
        commit_gameTimeline_def commit_additionalGame_def sendEvent_def
        LOADING_PRIORITY_GAME_TIMELINE_def LOADING_PRIORITY_ADDITIONAL_GAME_def
        split: option.splits)

lemma both_queues_share_the_concurrency:
  "mhQueue_concurrency (handlePQueue m) = concurrency (settings m)
   \<and> queue_concurrency (handlePQueue m) = concurrency (settings m)"
  by (simp add: handlePQueue_def)

text \<open>
  Claim C5 places every match-history task in the match-history queue. On the LCU path
  the match-history request is added to the general queue (with the match-history signal
  and priority 5).
\<close>

theorem lcu_match_history_goes_to_general_queue:
  "map adds (pending (loadPlayerMatchHistory env_champSelect ''p1'' lcu_options (startup settings0)))
     = [[\<lparr>q_queue = Queue, q_signal = Some 1, q_priority = Priority 5,
          q_request = LcGetMatchHistory ''p1'' 0 19\<rparr>]]"
  by code_simp

section \<open>Generations\<close>

text \<open>
  A match-history request whose signal is aborted commits nothing: the loader returns
  after its first \<^verbatim>\<open>await\<close>, on both paths. The code after the detail fetches of the LCU
  path commits whatever these fetches settled with.
\<close>

lemma aborted_first_await_commits_nothing:
  assumes "signal_aborted m (q_signal a)"
  shows "matchHistory (state (resume e (MhSgp p opts) [queue_result m a r] m'))
           = matchHistory (state m')"
    and "matchHistory (state (resume e (MhLcuList p opts) [queue_result m a r] m'))
           = matchHistory (state m')"
  using assms
  by (simp_all add: resume_def queue_result_def resume_mh_sgp_def resume_mh_lcu_list_def
        handleMatchHistoryError_def abortError_def isAbortError_def
        setMatchHistoryLoadingState_def)

lemma details_always_commit:
  "matchHistory (state (resume e (MhLcuDetails p opts lw dm aw) rs m)) p \<noteq> None"
  by (simp add: resume_def resume_mh_lcu_details_def finish_mh_lcu_def Let_def
        commit_matchHistory_def sendEvent_def setMatchHistoryLoadingState_def log_at_def
        split: prod.splits)

text \<open>
  Claim C1 says that once a newer generation has started, no result of the older one is
  committed, and that the committed source and tag are those of the newer generation. In
  the run below generation 2 (SGP, tag q_420) starts while generation 1 (LCU) waits for the
  detail of game 7: both signals of generation 1 are aborted, fresh ones are created, and
  nothing is committed yet. The aborted detail request of generation 1 then settles, and
  the loader commits its LCU record and announces it; the record is still there after the
  request of generation 2 has failed.
\<close>

theorem superseded_generation_commits_match_history:
  "abortedSignals (run (take 3 stale_trace) (startup settings_sgp)) = [1, 0]
   \<and> controller (run (take 3 stale_trace) (startup settings_sgp)) = Some 2
   \<and> mhController (run (take 3 stale_trace) (startup settings_sgp)) = Some 3
   \<and> matchHistory (state (run (take 3 stale_trace) (startup settings_sgp))) ''p1'' = None
   \<and> sent (run (take 3 stale_trace) (startup settings_sgp)) = []
   \<and> matchHistory (state (run (take 4 stale_trace) (startup settings_sgp))) ''p1''
        = Some \<lparr>source = Lcu, data = [Game 7 ''light''], targetCount = 20, tag = None\<rparr>
   \<and> sent (run (take 4 stale_trace) (startup settings_sgp))
        = [EvMatchHistoryLoaded ''p1''
             \<lparr>source = Lcu, data = [Game 7 ''light''], targetCount = 20, tag = None\<rparr>]
   \<and> matchHistoryLoadingState (state (run (take 4 stale_trace) (startup settings_sgp))) ''p1''
        = Some Loaded
   \<and> map q_request (adds (pending (run (take 4 stale_trace) (startup settings_sgp)) ! 5))
        = [SgpGetMatchHistoryLcuFormat ''p1'' 0 20 (Some ''q_420'')]
   \<and> matchHistory (state (run stale_trace (startup settings_sgp))) ''p1''
        = Some \<lparr>source = Lcu, data = [Game 7 ''light''], targetCount = 20, tag = None\<rparr>
   \<and> matchHistoryTag (state (run stale_trace (startup settings_sgp))) = ''q_420''"
  by code_simp

section \<open>Skip if unchanged\<close>

lemma loadGameTimeline1_keeps_matchHistory:
  "matchHistory (state (loadGameTimeline1 e opts gid m)) = matchHistory (state m)"
  by (simp add: loadGameTimeline1_def Let_def log_at_def commit_gameTimeline_def sendEvent_def
        enqueue_def split: option.splits)

lemma loadGameTimeline_keeps_matchHistory:
  "matchHistory (state (loadGameTimeline e gids opts m)) = matchHistory (state m)"
  unfolding loadGameTimeline_def
  by (induction gids arbitrary: m) (simp_all add: loadGameTimeline1_keeps_matchHistory)

lemma loadGameTimeline1_keeps_gameLruMap:
  "gameLruMap (loadGameTimeline1 e opts gid m) = gameLruMap m"
  by (simp add: loadGameTimeline1_def Let_def split: option.splits)

lemma loadGameTimeline_keeps_gameLruMap:
  "gameLruMap (loadGameTimeline e gids opts m) = gameLruMap m"
  unfolding loadGameTimeline_def
  by (induction gids arbitrary: m) (simp_all add: loadGameTimeline1_keeps_gameLruMap)

lemma resume_mh_sgp_commits:
  "matchHistory (state (resume_mh_sgp e p opts (Inr (RGames gs)) m)) p
     = Some \<lparr>source = Sgp, data = gs, targetCount = count_of opts, tag = o_tag opts\<rparr>"
  by (simp add: resume_mh_sgp_def Let_def commit_matchHistory_def sendEvent_def
        setMatchHistoryLoadingState_def)

lemma finish_mh_lcu_commits:
  "matchHistory (state (finish_mh_lcu p opts lw dm m)) p
     = Some \<lparr>source = Lcu,
             data = map (\<lambda>g. case map_of dm (gameId g) of None \<Rightarrow> g | Some d \<Rightarrow> d) lw,
             targetCount = count_of opts, tag = None\<rparr>"
  by (simp add: finish_mh_lcu_def Let_def commit_matchHistory_def sendEvent_def
        setMatchHistoryLoadingState_def log_at_def)

lemma lru_get_keeps_has: "lru_has g (snd (lru_get k c)) = lru_has g c"
proof (cases "lru_has k c")
  case True
  then have "set (lru_keys (snd (lru_get k c))) = set (lru_keys c)"
    by (auto simp: lru_get_hit touch_def lru_has_iff)
  then show ?thesis by (simp add: lru_has_iff)
next
  case False
  then show ?thesis by (simp add: lru_get_miss)
qed

lemma loadGame_heads_all_cached:
  "\<forall>g\<in>set gids. lru_has g (gameLruMap m) \<Longrightarrow>
   snd (snd (loadGame_heads gids m dm aw)) = aw"
proof (induction gids arbitrary: m dm)
  case Nil
  then show ?case by simp
next
  case (Cons gid gids)
  have hit: "lru_has gid (gameLruMap m)" using Cons.prems by simp
  then obtain c where c: "fst (lru_get gid (gameLruMap m)) = Some c"
    by (auto simp: lru_has_def lru_get_def)
  have "\<forall>g\<in>set gids. lru_has g (gameLruMap (m\<lparr>gameLruMap := snd (lru_get gid (gameLruMap m))\<rparr>))"
    using Cons.prems by (simp add: lru_get_keeps_has)
  from Cons.IH [OF this] show ?case using hit c by simp
qed

lemma sgp_tag_cases:
  "t \<noteq> [] \<Longrightarrow> sgp_tag (Some t) = (if t \<in> set SAFE_TAGS then Some t else None)"
  by (auto simp: sgp_tag_def truthy_def SAFE_TAGS_def)

lemma receivable_sgp_tag:
  "receivable_tag t \<Longrightarrow> sgp_tag t = (if t = Some ''all'' then None else t)"
  by (auto simp: receivable_tag_def sgp_tag_def truthy_def SAFE_TAGS_def split: option.splits)

lemma loader_skips_iff_unchanged:
  "(pending (loadPlayerMatchHistory e p opts m) = pending m) = mh_unchanged e p opts m"
  by (simp add: loadPlayerMatchHistory_def Let_def log_at_def enqueue_def
        setMatchHistoryLoadingState_def sgp_set_tag_def setMatchHistoryTag_def
        split: option.splits)

lemma source_switch_fetches_again:
  "matchHistory (state m) p = Some current \<Longrightarrow>
   source current \<noteq> resolved (isAbleToUseSgpApi e opts) \<Longrightarrow>
   \<not> mh_unchanged e p opts m"
  by (simp add: mh_unchanged_def)

lemma repeated_call_is_skipped:
  assumes able: "isAbleToUseSgpApi e opts" and nf: "\<not> o_force opts"
    and known: "sgp_tag (o_tag opts) = (if o_tag opts = Some ''all'' then None else o_tag opts)"
  shows "mh_unchanged e p opts
           (resume e' (MhSgp p (opts\<lparr>o_tag := sgp_tag (o_tag opts), o_count := Some (count_of opts)\<rparr>))
              [Inr (RGames gs)] m')"
  using able nf known
  by (simp add: mh_unchanged_def resume_def resume_mh_sgp_commits resolved_def count_of_def)

lemma repeated_lcu_call_is_skipped:
  assumes "\<not> isAbleToUseSgpApi e opts" and "\<not> o_force opts"
  shows "mh_unchanged e p opts
           (resume e' (MhLcuDetails p (opts\<lparr>o_count := Some (count_of opts)\<rparr>) lw dm aw) rs m')"
    and "\<forall>g\<in>set gs. lru_has (gameId g) (gameLruMap m') \<Longrightarrow>
         mh_unchanged e p opts
           (resume e' (MhLcuList p (opts\<lparr>o_count := Some (count_of opts)\<rparr>)) [Inr (RGames gs)] m')"
proof -
  show "mh_unchanged e p opts
           (resume e' (MhLcuDetails p (opts\<lparr>o_count := Some (count_of opts)\<rparr>) lw dm aw) rs m')"
    using assms
    by (simp add: mh_unchanged_def resume_def resume_mh_lcu_details_def finish_mh_lcu_commits
          resolved_def count_of_def split: prod.splits)
next
  assume cached: "\<forall>g\<in>set gs. lru_has (gameId g) (gameLruMap m')"
  let ?opts = "opts\<lparr>o_count := Some (count_of opts)\<rparr>"
  let ?m1 = "loadGameTimeline e' (slice0 (gameTimelineLoadCount (settings m')) (map gameId gs))
               (sub_options (o_signal ?opts) (o_force ?opts) (o_useSgpApi ?opts) None) m'"
  obtain m2 dm aw where h: "loadGame_heads (map gameId gs) ?m1 [] [] = (m2, dm, aw)"
    by (cases "loadGame_heads (map gameId gs) ?m1 [] []") auto
  have "\<forall>g\<in>set (map gameId gs). lru_has g (gameLruMap ?m1)"
    using cached by (simp add: loadGameTimeline_keeps_gameLruMap)
  from loadGame_heads_all_cached [OF this, of "[]" "[]"] h have "aw = []" by simp
  then have "resume e' (MhLcuList p ?opts) [Inr (RGames gs)] m' = finish_mh_lcu p ?opts gs dm m2"
    using h by (simp add: resume_def resume_mh_lcu_list_def Let_def)
  then show "mh_unchanged e p opts (resume e' (MhLcuList p ?opts) [Inr (RGames gs)] m')"
    using assms
    by (simp add: mh_unchanged_def finish_mh_lcu_commits resolved_def count_of_def)
qed

text \<open>
  A tag outside the known-safe list, such as q_999, is not recognised by the guard when the
  call is repeated: the first call stores its result without a tag and the second asks
  again. No call site passes such a tag: the orchestrator passes "all" or the known-safe
  tag of the current queue (\<open>receivable_current\<close>), a reload passes the stored tag, which
  is receivable in every run (\<open>stored_tag_always_receivable\<close>).
\<close>

lemma unknown_tag_is_fetched_again:
  "map q_request (concat (map adds (pending
      (loadPlayerMatchHistory env_inGame ''p1'' (tagged_options ''q_999'')
        (settle env_inGame 0 [Inr (RGames [Game 7 ''full''])]
          (loadPlayerMatchHistory env_inGame ''p1'' (tagged_options ''q_999'')
             (startup settings0)))))))
     = [SgpGetTimelineLcuFormat 7, SgpGetMatchHistoryLcuFormat ''p1'' 0 20 None]"
  by code_simp

text \<open>
  Claim C3. For every tag a call site can pass, the match-history loader skips the
  network call if and only if it is not forced, a record of the player is stored, and the
  record's count is the requested count, its source the resolved source and, on the SGP
  path, its tag the tag this request stores. A call that is not skipped queues exactly one
  match-history request; once that request has returned and the record is committed, the
  identical call is skipped, so that the two calls make one network call; a stored record
  of the other source is never a reason to skip.
\<close>

theorem unchanged_query_is_skipped:
  assumes receivable: "receivable_tag (o_tag opts)"
  shows
    "(pending (loadPlayerMatchHistory e p opts m) = pending m) = mh_unchanged e p opts m
     \<and> mh_unchanged e p opts m
         = (\<not> o_force opts \<and>
            (\<exists>current. matchHistory (state m) p = Some current
               \<and> targetCount current = count_of opts
               \<and> source current = resolved (isAbleToUseSgpApi e opts)
               \<and> (isAbleToUseSgpApi e opts \<longrightarrow> tag current = sgp_tag (o_tag opts))))
     \<and> (mh_unchanged e p opts m \<longrightarrow>
           state (loadPlayerMatchHistory e p opts m) = state m
           \<and> pending (loadPlayerMatchHistory e p opts m) = pending m)
     \<and> (\<not> mh_unchanged e p opts m \<longrightarrow>
           pending (loadPlayerMatchHistory e p opts m)
             = pending m @
               [if isAbleToUseSgpApi e opts
                then \<lparr>adds = [\<lparr>q_queue = MhQueue, q_signal = o_mhSignal opts,
                               q_priority = or_default (o_priority opts) 5,
                               q_request = SgpGetMatchHistoryLcuFormat p 0 (count_of opts)
                                             (sgp_tag (o_tag opts))\<rparr>],
                      cont = MhSgp p (opts\<lparr>o_tag := sgp_tag (o_tag opts),
                                           o_count := Some (count_of opts)\<rparr>)\<rparr>
                else \<lparr>adds = [\<lparr>q_queue = Queue, q_signal = o_mhSignal opts,
                               q_priority = or_default (o_priority opts) 5,
                               q_request = LcGetMatchHistory p 0 (count_of opts - 1)\<rparr>],
                      cont = MhLcuList p (opts\<lparr>o_count := Some (count_of opts)\<rparr>)\<rparr>])
     \<and> (\<not> o_force opts \<and> isAbleToUseSgpApi e opts \<longrightarrow>
           mh_unchanged e p opts
             (resume e' (MhSgp p (opts\<lparr>o_tag := sgp_tag (o_tag opts),
                                       o_count := Some (count_of opts)\<rparr>))
                [Inr (RGames gs)] m'))
     \<and> (\<not> o_force opts \<and> \<not> isAbleToUseSgpApi e opts \<longrightarrow>
           mh_unchanged e p opts
             (resume e' (MhLcuDetails p (opts\<lparr>o_count := Some (count_of opts)\<rparr>) lw dm aw) rs m'))
     \<and> (\<not> o_force opts \<and> \<not> isAbleToUseSgpApi e opts
           \<and> (\<forall>g\<in>set gs. lru_has (gameId g) (gameLruMap m')) \<longrightarrow>
           mh_unchanged e p opts
             (resume e' (MhLcuList p (opts\<lparr>o_count := Some (count_of opts)\<rparr>))
                [Inr (RGames gs)] m'))
     \<and> (\<forall>current. matchHistory (state m) p = Some current
           \<and> source current \<noteq> resolved (isAbleToUseSgpApi e opts) \<longrightarrow>
           \<not> mh_unchanged e p opts m)"
proof (intro conjI impI allI)
  show "(pending (loadPlayerMatchHistory e p opts m) = pending m) = mh_unchanged e p opts m"
    by (rule loader_skips_iff_unchanged)
  show "mh_unchanged e p opts m
         = (\<not> o_force opts \<and>
            (\<exists>current. matchHistory (state m) p = Some current
               \<and> targetCount current = count_of opts
               \<and> source current = resolved (isAbleToUseSgpApi e opts)
               \<and> (isAbleToUseSgpApi e opts \<longrightarrow> tag current = sgp_tag (o_tag opts))))"
    using receivable_sgp_tag [OF receivable]
    by (cases "matchHistory (state m) p") (auto simp: mh_unchanged_def Let_def)
next
  assume u: "mh_unchanged e p opts m"
  then show "state (loadPlayerMatchHistory e p opts m) = state m"
    and "pending (loadPlayerMatchHistory e p opts m) = pending m"
    by (simp_all add: loadPlayerMatchHistory_def log_at_def)
next
  assume "\<not> mh_unchanged e p opts m"
  then show "pending (loadPlayerMatchHistory e p opts m)
             = pending m @
               [if isAbleToUseSgpApi e opts
                then \<lparr>adds = [\<lparr>q_queue = MhQueue, q_signal = o_mhSignal opts,
                               q_priority = or_default (o_priority opts) 5,
                               q_request = SgpGetMatchHistoryLcuFormat p 0 (count_of opts)
                                             (sgp_tag (o_tag opts))\<rparr>],
                      cont = MhSgp p (opts\<lparr>o_tag := sgp_tag (o_tag opts),
                                           o_count := Some (count_of opts)\<rparr>)\<rparr>
                else \<lparr>adds = [\<lparr>q_queue = Queue, q_signal = o_mhSignal opts,
                               q_priority = or_default (o_priority opts) 5,
                               q_request = LcGetMatchHistory p 0 (count_of opts - 1)\<rparr>],
                      cont = MhLcuList p (opts\<lparr>o_count := Some (count_of opts)\<rparr>)\<rparr>]"
    by (simp add: loadPlayerMatchHistory_def Let_def enqueue_def setMatchHistoryLoadingState_def
          sgp_set_tag_def setMatchHistoryTag_def log_at_def LOADING_PRIORITY_MATCH_HISTORY_def
          split: option.splits)
next
  assume "\<not> o_force opts \<and> isAbleToUseSgpApi e opts"
  then show "mh_unchanged e p opts
             (resume e' (MhSgp p (opts\<lparr>o_tag := sgp_tag (o_tag opts),
                                       o_count := Some (count_of opts)\<rparr>))
                [Inr (RGames gs)] m')"
    using repeated_call_is_skipped [OF _ _ receivable_sgp_tag [OF receivable]] by blast
next
  assume "\<not> o_force opts \<and> \<not> isAbleToUseSgpApi e opts"
  then show "mh_unchanged e p opts
             (resume e' (MhLcuDetails p (opts\<lparr>o_count := Some (count_of opts)\<rparr>) lw dm aw) rs m')"
    using repeated_lcu_call_is_skipped(1) by blast
next
  assume "\<not> o_force opts \<and> \<not> isAbleToUseSgpApi e opts
           \<and> (\<forall>g\<in>set gs. lru_has (gameId g) (gameLruMap m'))"
  then show "mh_unchanged e p opts
             (resume e' (MhLcuList p (opts\<lparr>o_count := Some (count_of opts)\<rparr>))
                [Inr (RGames gs)] m')"
    using repeated_lcu_call_is_skipped(2) by blast
next
  fix current
  assume "matchHistory (state m) p = Some current
           \<and> source current \<noteq> resolved (isAbleToUseSgpApi e opts)"
  then show "\<not> mh_unchanged e p opts m"
    using source_switch_fetches_again by blast
qed

theorem unchanged_query_is_skipped_witness:
  "receivable_tag (o_tag (tagged_options ''q_420''))
   \<and> \<not> mh_unchanged env_inGame ''p1'' (tagged_options ''q_420'') (startup settings0)
   \<and> map q_request (concat (map adds (pending
        (loadPlayerMatchHistory env_inGame ''p1'' (tagged_options ''q_420'') (startup settings0)))))
       = [SgpGetMatchHistoryLcuFormat ''p1'' 0 20 (Some ''q_420'')]
   \<and> mh_unchanged env_inGame ''p1'' (tagged_options ''q_420'')
        (resume env_inGame
           (MhSgp ''p1'' ((tagged_options ''q_420'')
              \<lparr>o_tag := sgp_tag (o_tag (tagged_options ''q_420'')),
               o_count := Some (count_of (tagged_options ''q_420''))\<rparr>))
           [Inr (RGames [Game 7 ''full''])] (startup settings0))
   \<and> pending (loadPlayerMatchHistory env_inGame ''p1'' (tagged_options ''q_420'')
        (resume env_inGame
           (MhSgp ''p1'' ((tagged_options ''q_420'')
              \<lparr>o_tag := sgp_tag (o_tag (tagged_options ''q_420'')),
               o_count := Some (count_of (tagged_options ''q_420''))\<rparr>))
           [Inr (RGames [Game 7 ''full''])] (startup settings0)))
       = pending (resume env_inGame
           (MhSgp ''p1'' ((tagged_options ''q_420'')
              \<lparr>o_tag := sgp_tag (o_tag (tagged_options ''q_420'')),
               o_count := Some (count_of (tagged_options ''q_420''))\<rparr>))
           [Inr (RGames [Game 7 ''full''])] (startup settings0))
   \<and> \<not> mh_unchanged env_champSelect ''p1'' lcu_options
        (resume env_inGame
           (MhSgp ''p1'' ((tagged_options ''q_420'')
              \<lparr>o_tag := sgp_tag (o_tag (tagged_options ''q_420'')),
               o_count := Some (count_of (tagged_options ''q_420''))\<rparr>))
           [Inr (RGames [Game 7 ''full''])] (startup settings0))"
proof -
  let ?opts = "tagged_options ''q_420''"
  let ?m2 = "resume env_inGame
               (MhSgp ''p1'' (?opts\<lparr>o_tag := sgp_tag (o_tag ?opts),
                                     o_count := Some (count_of ?opts)\<rparr>))
               [Inr (RGames [Game 7 ''full''])] (startup settings0)"
  have r: "receivable_tag (o_tag ?opts)"
    by (simp add: receivable_tag_def tagged_options_def SAFE_TAGS_def)
  have r': "receivable_tag (o_tag lcu_options)"
    by (simp add: receivable_tag_def lcu_options_def)
  have able: "\<not> o_force ?opts \<and> isAbleToUseSgpApi env_inGame ?opts"
    by (simp add: isAbleToUseSgpApi_def env_inGame_def tagged_options_def)
  have fresh: "\<not> mh_unchanged env_inGame ''p1'' ?opts (startup settings0)"
    by (simp add: mh_unchanged_def startup_def)
  have stored: "matchHistory (state ?m2) ''p1''
                  = Some \<lparr>source = Sgp, data = [Game 7 ''full''], targetCount = 20,
                          tag = Some ''q_420''\<rparr>"
    by (simp add: resume_def resume_mh_sgp_commits count_of_def tagged_options_def sgp_tag_def
          truthy_def SAFE_TAGS_def)
  have other: "source \<lparr>source = Sgp, data = [Game 7 ''full''], targetCount = 20,
                         tag = Some ''q_420''\<rparr>
                 \<noteq> resolved (isAbleToUseSgpApi env_champSelect lcu_options)"
    by (simp add: resolved_def isAbleToUseSgpApi_def lcu_options_def)
  note first = unchanged_query_is_skipped [OF r, where e = env_inGame and p = "''p1''"
                 and m = "startup settings0" and e' = env_inGame
                 and gs = "[Game 7 ''full'']" and m' = "startup settings0"
                 and lw = "[]" and dm = "[]" and aw = "[]" and rs = "[]"]
  note second = unchanged_query_is_skipped [OF r, where e = env_inGame and p = "''p1''"
                 and m = ?m2 and e' = env_inGame
                 and gs = "[Game 7 ''full'']" and m' = "startup settings0"
                 and lw = "[]" and dm = "[]" and aw = "[]" and rs = "[]"]
  note switch = unchanged_query_is_skipped [OF r', where e = env_champSelect and p = "''p1''"
                 and m = ?m2 and e' = env_inGame
                 and gs = "[Game 7 ''full'']" and m' = "startup settings0"
                 and lw = "[]" and dm = "[]" and aw = "[]" and rs = "[]"]
  from first fresh able
  have req: "map q_request (concat (map adds (pending
               (loadPlayerMatchHistory env_inGame ''p1'' ?opts (startup settings0)))))
             = [SgpGetMatchHistoryLcuFormat ''p1'' 0 20 (Some ''q_420'')]"
    by (simp add: startup_def count_of_def tagged_options_def sgp_tag_def truthy_def
          SAFE_TAGS_def)
  from first able have skip: "mh_unchanged env_inGame ''p1'' ?opts ?m2" by blast
  from second skip
  have same: "pending (loadPlayerMatchHistory env_inGame ''p1'' ?opts ?m2) = pending ?m2"
    by blast
  from switch stored other
  have sw: "\<not> mh_unchanged env_champSelect ''p1'' lcu_options ?m2" by blast
  show ?thesis using r fresh req skip same sw by blast
qed

section \<open>Tag normalisation on the SGP path\<close>

text \<open>
  Claim C4. When the match-history loader takes the SGP path (it is able to use the SGP
  API and the call is not skipped), every requested tag outside the known-safe list is
  normalised: the stored tag becomes "all", the query is added untagged and the record
  committed when the query returns has no tag. A requested tag inside the list is stored,
  queried and committed as given. A tag is requested when it is present and not empty;
  without a requested tag the stored tag is left alone and the tag is passed on as it is.
\<close>

theorem requested_tag_is_normalised:
  assumes able: "isAbleToUseSgpApi e opts"
    and changed: "\<not> mh_unchanged e p opts m"
  shows
    "(o_tag opts = Some t \<and> t \<noteq> [] \<longrightarrow>
        matchHistoryTag (state (loadPlayerMatchHistory e p opts m))
          = (if t \<in> set SAFE_TAGS then t else ''all'')
        \<and> pending (loadPlayerMatchHistory e p opts m)
          = pending m @
            [\<lparr>adds = [\<lparr>q_queue = MhQueue, q_signal = o_mhSignal opts,
                       q_priority = or_default (o_priority opts) LOADING_PRIORITY_MATCH_HISTORY,
                       q_request = SgpGetMatchHistoryLcuFormat p 0 (count_of opts)
                                     (if t \<in> set SAFE_TAGS then Some t else None)\<rparr>],
              cont = MhSgp p (opts\<lparr>o_tag := (if t \<in> set SAFE_TAGS then Some t else None),
                                   o_count := Some (count_of opts)\<rparr>)\<rparr>]
        \<and> matchHistory (state
             (resume e' (MhSgp p (opts\<lparr>o_tag := (if t \<in> set SAFE_TAGS then Some t else None),
                                        o_count := Some (count_of opts)\<rparr>))
                [Inr (RGames gs)] m')) p
          = Some \<lparr>source = Sgp, data = gs, targetCount = count_of opts,
                  tag = (if t \<in> set SAFE_TAGS then Some t else None)\<rparr>)
     \<and> (o_tag opts = None \<or> o_tag opts = Some [] \<longrightarrow>
        matchHistoryTag (state (loadPlayerMatchHistory e p opts m)) = matchHistoryTag (state m)
        \<and> pending (loadPlayerMatchHistory e p opts m)
          = pending m @
            [\<lparr>adds = [\<lparr>q_queue = MhQueue, q_signal = o_mhSignal opts,
                       q_priority = or_default (o_priority opts) LOADING_PRIORITY_MATCH_HISTORY,
                       q_request = SgpGetMatchHistoryLcuFormat p 0 (count_of opts) (o_tag opts)\<rparr>],
              cont = MhSgp p (opts\<lparr>o_count := Some (count_of opts)\<rparr>)\<rparr>])"
proof (intro conjI impI)
  assume req: "o_tag opts = Some t \<and> t \<noteq> []"
  then have requested: "o_tag opts = Some t" and nonempty: "t \<noteq> []" by simp_all
  have norm: "sgp_tag (o_tag opts) = (if t \<in> set SAFE_TAGS then Some t else None)"
    using requested nonempty by (simp add: sgp_tag_cases)
  have all: "''all'' \<notin> set SAFE_TAGS" by (simp add: SAFE_TAGS_def)
  show "matchHistoryTag (state (loadPlayerMatchHistory e p opts m))
          = (if t \<in> set SAFE_TAGS then t else ''all'')"
    using able changed requested nonempty all
    by (auto simp: loadPlayerMatchHistory_def Let_def enqueue_def setMatchHistoryLoadingState_def
          sgp_set_tag_def truthy_def setMatchHistoryTag_def log_at_def)
  show "pending (loadPlayerMatchHistory e p opts m)
           = pending m @
             [\<lparr>adds = [\<lparr>q_queue = MhQueue, q_signal = o_mhSignal opts,
                        q_priority = or_default (o_priority opts) LOADING_PRIORITY_MATCH_HISTORY,
                        q_request = SgpGetMatchHistoryLcuFormat p 0 (count_of opts)
                                      (if t \<in> set SAFE_TAGS then Some t else None)\<rparr>],
               cont = MhSgp p (opts\<lparr>o_tag := (if t \<in> set SAFE_TAGS then Some t else None),
                                    o_count := Some (count_of opts)\<rparr>)\<rparr>]"
    using able changed norm
    by (simp add: loadPlayerMatchHistory_def Let_def enqueue_def setMatchHistoryLoadingState_def
          sgp_set_tag_def setMatchHistoryTag_def log_at_def split: option.splits)
  show "matchHistory (state
              (resume e' (MhSgp p (opts\<lparr>o_tag := (if t \<in> set SAFE_TAGS then Some t else None),
                                         o_count := Some (count_of opts)\<rparr>))
                 [Inr (RGames gs)] m')) p
           = Some \<lparr>source = Sgp, data = gs, targetCount = count_of opts,
                   tag = (if t \<in> set SAFE_TAGS then Some t else None)\<rparr>"
    by (simp add: resume_def resume_mh_sgp_commits count_of_def)
next
  assume none: "o_tag opts = None \<or> o_tag opts = Some []"
  then have f: "\<not> truthy (o_tag opts)" by (auto simp: truthy_def)
  show "matchHistoryTag (state (loadPlayerMatchHistory e p opts m)) = matchHistoryTag (state m)"
    using able changed f
    by (simp add: loadPlayerMatchHistory_def Let_def enqueue_def setMatchHistoryLoadingState_def
          sgp_set_tag_def log_at_def)
  have same: "opts\<lparr>o_tag := o_tag opts, o_count := Some (count_of opts)\<rparr>
                = opts\<lparr>o_count := Some (count_of opts)\<rparr>"
    by simp
  show "pending (loadPlayerMatchHistory e p opts m)
          = pending m @
            [\<lparr>adds = [\<lparr>q_queue = MhQueue, q_signal = o_mhSignal opts,
                       q_priority = or_default (o_priority opts) LOADING_PRIORITY_MATCH_HISTORY,
                       q_request = SgpGetMatchHistoryLcuFormat p 0 (count_of opts) (o_tag opts)\<rparr>],
              cont = MhSgp p (opts\<lparr>o_count := Some (count_of opts)\<rparr>)\<rparr>]"
    using able changed f
    by (simp add: loadPlayerMatchHistory_def Let_def enqueue_def setMatchHistoryLoadingState_def
          sgp_set_tag_def sgp_tag_def log_at_def same)
qed

theorem requested_tag_is_normalised_witness:
  "isAbleToUseSgpApi env_inGame (tagged_options ''q_999'')
   \<and> \<not> mh_unchanged env_inGame ''p1'' (tagged_options ''q_999'') (startup settings0)
   \<and> ''q_999'' \<notin> set SAFE_TAGS
   \<and> matchHistoryTag (state
        (loadPlayerMatchHistory env_inGame ''p1'' (tagged_options ''q_999'') (startup settings0)))
       = ''all''
   \<and> matchHistory (state
        (resume env_inGame (MhSgp ''p1'' ((tagged_options ''q_999'')\<lparr>o_tag := None, o_count := Some 20\<rparr>))
           [Inr (RGames [Game 7 ''full''])] (startup settings0))) ''p1''
       = Some \<lparr>source = Sgp, data = [Game 7 ''full''], targetCount = 20, tag = None\<rparr>
   \<and> isAbleToUseSgpApi env_inGame (tagged_options ''q_420'')
   \<and> \<not> mh_unchanged env_inGame ''p1'' (tagged_options ''q_420'') (startup settings0)
   \<and> ''q_420'' \<in> set SAFE_TAGS
   \<and> matchHistoryTag (state
        (loadPlayerMatchHistory env_inGame ''p1'' (tagged_options ''q_420'') (startup settings0)))
       = ''q_420''
   \<and> matchHistory (state
        (resume env_inGame (MhSgp ''p1'' ((tagged_options ''q_420'')\<lparr>o_tag := Some ''q_420'', o_count := Some 20\<rparr>))
           [Inr (RGames [Game 7 ''full''])] (startup settings0))) ''p1''
       = Some \<lparr>source = Sgp, data = [Game 7 ''full''], targetCount = 20, tag = Some ''q_420''\<rparr>
   \<and> o_tag (tagged_options '''') = Some ''''
   \<and> matchHistoryTag (state
        (loadPlayerMatchHistory env_inGame ''p1'' (tagged_options '''')
           (ipc_setMatchHistoryTag ''q_420'' (startup settings0))))
       = matchHistoryTag (state (ipc_setMatchHistoryTag ''q_420'' (startup settings0)))"
proof -
  have able: "\<And>t. isAbleToUseSgpApi env_inGame (tagged_options t)"
    by (simp add: isAbleToUseSgpApi_def env_inGame_def tagged_options_def)
  have changed: "\<And>t. \<not> mh_unchanged env_inGame ''p1'' (tagged_options t) (startup settings0)"
    by (simp add: mh_unchanged_def startup_def)
  have changed': "\<not> mh_unchanged env_inGame ''p1'' (tagged_options '''')
                     (ipc_setMatchHistoryTag ''q_420'' (startup settings0))"
    by (simp add: mh_unchanged_def startup_def ipc_setMatchHistoryTag_def setMatchHistoryTag_def
          debouncedUpdateMatchHistoryFn_def SAFE_TAGS_def)
  have req: "\<And>t. o_tag (tagged_options t) = Some t"
    by (simp add: tagged_options_def)
  have cnt: "\<And>t. count_of (tagged_options t) = 20"
    by (simp add: tagged_options_def count_of_def)
  have unsafe: "''q_999'' \<notin> set SAFE_TAGS" and safe: "''q_420'' \<in> set SAFE_TAGS"
    by (simp_all add: SAFE_TAGS_def)
  note a = requested_tag_is_normalised [OF able changed, where t = "''q_999''" and t1 = "''q_999''"
             and e' = env_inGame and gs = "[Game 7 ''full'']" and m' = "startup settings0"]
  note b = requested_tag_is_normalised [OF able changed, where t = "''q_420''" and t1 = "''q_420''"
             and e' = env_inGame and gs = "[Game 7 ''full'']" and m' = "startup settings0"]
  note c = requested_tag_is_normalised [OF able changed', where t = "''''"
             and e' = env_inGame and gs = "[Game 7 ''full'']" and m' = "startup settings0"]
  show ?thesis
    using a b c able changed unsafe safe cnt req by simp
qed

end
